theory Spec2Isabelle
  imports Complex_Main
begin

section \<open>Gesture classifier (gesture.service.ts)\<close>

text \<open>
  JavaScript numbers are modelled as \<^typ>\<open>real\<close>: the properties below concern the
  control flow of the classifier and of the engine, not rounding.
\<close>

datatype GestureType = IDLE | PINCH | OPEN_PALM | V_SIGN | OK_SIGN | FIST

record Landmark =
  lmx :: real
  lmy :: real
  lmz :: real

record HandState =
  gesture :: GestureType
  hx :: real
  hy :: real
  hz :: real
  isPresent :: bool

datatype error = TypeError

definition getDistance :: "Landmark \<Rightarrow> Landmark \<Rightarrow> real" where
  "getDistance p1 p2 =
     sqrt ((lmx p1 - lmx p2) ^ 2 + (lmy p1 - lmy p2) ^ 2 + (lmz p1 - lmz p2) ^ 2)"

text \<open>Compares the tip with the knuckle three landmarks below it, both seen from the wrist.\<close>

definition isFingerExtended :: "Landmark list \<Rightarrow> nat \<Rightarrow> bool" where
  "isFingerExtended landmarks tipIdx =
     (let tip = landmarks ! tipIdx;
          mcp = landmarks ! (tipIdx - 3);
          wrist = landmarks ! 0
      in getDistance wrist tip > getDistance wrist mcp * 1.3)"

text \<open>
  \<open>processHand\<close> reads the landmarks 0, 4, 5, 8, 9, 12, 13, 16, 17 and 20. An array
  with fewer than 21 entries gives \<open>undefined\<close> at index 20 and the property access
  inside \<open>getDistance\<close> throws.
\<close>

definition processHand :: "Landmark list \<Rightarrow> error + HandState" where
  "processHand landmarks =
     (if length landmarks < 21 then Inl TypeError
      else
        let thumbTip = landmarks ! 4;
            indexTip = landmarks ! 8;
            pinchDist = getDistance thumbTip indexTip;
            isIndexExt = isFingerExtended landmarks 8;
            isMiddleExt = isFingerExtended landmarks 12;
            isRingExt = isFingerExtended landmarks 16;
            isPinkyExt = isFingerExtended landmarks 20;
            g = (if \<not> isIndexExt \<and> \<not> isMiddleExt \<and> \<not> isRingExt \<and> \<not> isPinkyExt then FIST
                 else if pinchDist < 0.05 then
                   (if isMiddleExt \<and> isRingExt \<and> isPinkyExt then OK_SIGN else PINCH)
                 else if isIndexExt \<and> isMiddleExt \<and> \<not> isPinkyExt then V_SIGN
                 else if isIndexExt \<and> isMiddleExt \<and> isRingExt \<and> isPinkyExt then OPEN_PALM
                 else IDLE)
        in Inr \<lparr> gesture = g, hx = 1 - lmx indexTip, hy = lmy indexTip,
                 hz = lmz indexTip, isPresent = True \<rparr>)"

text \<open>Three hands used as concrete inputs: every landmark sits at the origin or at (1, 0, 0).\<close>

definition origin :: Landmark where
  "origin = \<lparr> lmx = 0, lmy = 0, lmz = 0 \<rparr>"

definition unitX :: Landmark where
  "unitX = \<lparr> lmx = 1, lmy = 0, lmz = 0 \<rparr>"

definition handPeace :: "Landmark list" where
  "handPeace = (replicate 21 origin)[8 := unitX, 12 := unitX]"

definition handOk :: "Landmark list" where
  "handOk = (replicate 21 origin)[4 := unitX, 8 := unitX, 12 := unitX, 16 := unitX, 20 := unitX]"

definition handPinch :: "Landmark list" where
  "handPinch = (replicate 21 origin)[4 := unitX, 8 := unitX]"

section \<open>Firework engine (visual-engine.service.ts)\<close>

subsection \<open>Data\<close>

text \<open>
  A JavaScript string is the list of its UTF-16 code units, so that \<open>length\<close> is the
  \<open>length\<close> property of the source.
\<close>

type_synonym jsstring = "nat list"

definition utf16 :: "string \<Rightarrow> jsstring" where
  "utf16 s = map of_char s"

record Vector3 =
  vx :: real
  vy :: real
  vz :: real

datatype SysState = ROCKET | EXPLODING | WEAVING | FADING

datatype AppMode = COUNTDOWN | SHOW

datatype ShapeKind = HEART | STAR

text \<open>
  \<open>currentPositions\<close> is the array handed to the mesh's position attribute and
  \<open>colors\<close> the one handed to its color attribute: a buffer attribute keeps the array
  it is given, so the arrays that \<open>animate\<close> reads from the mesh are these two fields.
  \<open>matSize\<close> and \<open>matOpacity\<close> are the size and opacity of the mesh's material;
  \<open>targetX\<close> and \<open>targetY\<close> are the two fields attached to the system after it is pushed.
\<close>

record ParticleSystem =
  currentPositions :: "real list"
  originalPositions :: "real list"
  velocities :: "real list"
  colors :: "real list"
  state :: SysState
  timer :: real
  rocketPos :: Vector3
  rocketVelocity :: Vector3
  targetX :: real
  targetY :: real
  matSize :: real
  matOpacity :: real

record Cursor =
  cursorPos :: Vector3
  cursorVisible :: bool
  cursorColor :: nat

datatype LoopPhase = PauseWait | DisplayWait | Stopped | Rejected

text \<open>
  One running \<open>runTextLoop\<close>: where it is suspended, and its locals \<open>index\<close> and
  \<open>elapsed\<close>. \<open>Stopped\<close> is the loop left by its \<open>break\<close>, \<open>Rejected\<close> the loop ended
  by an exception, which rejects the promise of the \<open>async\<close> function.
\<close>

record TextLoop =
  phase :: LoopPhase
  index :: nat
  elapsed :: nat

text \<open>
  The fields of the service. \<open>camera\<close> is the z coordinate of the camera's position
  (\<open>None\<close> before \<open>init\<close>); \<open>init\<close> assigns the scene and the camera together and nothing
  else assigns either, so the scene exists exactly when the camera does and the record
  keeps the one field for both. \<open>nebula\<close> is the z rotation of the nebula, \<open>rng\<close> the number
  of \<open>Math.random\<close> draws made so far, \<open>timeouts\<close> the due times of the finale's pending
  \<open>setTimeout\<close> callbacks and \<open>loops\<close> the text loops in flight.
\<close>

record Engine =
  textPointsCache :: "jsstring \<rightharpoonup> Vector3 list"
  systems :: "ParticleSystem list"
  camera :: "real option"
  nebula :: "real option"
  cursor :: "Cursor option"
  mouse :: "real \<times> real"
  mode :: AppMode
  currentPaletteIndex :: nat
  isHandDetected :: bool
  handGesture :: GestureType
  isPaused :: bool
  lastTriggerTime :: int
  currentAction :: jsstring
  rng :: nat
  timeouts :: "int list"
  loops :: "TextLoop list"

text \<open>The image data read back from the off-screen canvas: its width and its RGBA bytes.\<close>

record Bitmap =
  width :: nat
  data :: "nat \<Rightarrow> nat"

text \<open>
  What the engine takes from the browser and from three.js: the stream of \<open>Math.random\<close>
  results, the canvas rendering of a text (\<open>None\<close> when no 2D context is available),
  \<open>Color.setHex\<close> and \<open>Vector3.unproject\<close> for a camera at a given z.
\<close>

record Host =
  mathRandom :: "nat \<Rightarrow> real"
  canvas :: "jsstring \<Rightarrow> Bitmap option"
  setHex :: "nat \<Rightarrow> real \<times> real \<times> real"
  unproject :: "real \<Rightarrow> Vector3 \<Rightarrow> Vector3"

definition PALETTES :: "(jsstring \<times> nat list) list" where
  "PALETTES =
    [(0x8D64 # utf16 '' (Red)'', [0xFF0000, 0xFF4D4D, 0xFF9999, 0xFFFFFF, 0xDC143C]),
     (0x6A59 # utf16 '' (Orange)'', [0xFF7F00, 0xFFA500, 0xFFD700, 0xFFFFFF, 0xFF4500]),
     (0x9EC4 # utf16 '' (Yellow)'', [0xFFFF00, 0xFFFFE0, 0xFFD700, 0xFFFFFF, 0xDAA520]),
     (0x7EFF # utf16 '' (Green)'', [0x00FF00, 0x32CD32, 0x90EE90, 0xFFFFFF, 0x006400]),
     (0x9752 # utf16 '' (Cyan)'', [0x00FFFF, 0x40E0D0, 0xE0FFFF, 0xFFFFFF, 0x008B8B]),
     (0x84DD # utf16 '' (Blue)'', [0x0000FF, 0x1E90FF, 0x87CEFA, 0xFFFFFF, 0x000080]),
     (0x7D2B # utf16 '' (Purple)'', [0x8B00FF, 0x9370DB, 0xE6E6FA, 0xFFFFFF, 0x4B0082])]"

definition currentTheme :: "Engine \<Rightarrow> jsstring" where
  "currentTheme s = fst (PALETTES ! currentPaletteIndex s)"

text \<open>The status labels written to \<open>currentAction\<close>.\<close>

definition labelWaiting :: jsstring where "labelWaiting = utf16 ''WAITING''"
definition labelReady :: jsstring where "labelReady = utf16 ''READY''"
definition labelShowStarted :: jsstring where "labelShowStarted = utf16 ''SHOW STARTED''"
definition labelNoSignal :: jsstring where "labelNoSignal = utf16 ''NO SIGNAL''"
definition labelLove :: jsstring where "labelLove = 0x2764 # utf16 '' LOVE (V-SIGN)''"
definition labelFinale :: jsstring where "labelFinale = 0xD83C # 0xDF86 # utf16 '' FINALE (OK)''"
definition labelZoomIn :: jsstring where "labelZoomIn = 0xD83D # 0xDD0D # utf16 '' ZOOM IN (PINCH)''"
definition labelZoomOut :: jsstring where "labelZoomOut = 0xD83D # 0xDD2D # utf16 '' ZOOM OUT (PALM)''"

text \<open>The service as constructed, before \<open>init\<close>.\<close>

definition newEngine :: Engine where
  "newEngine =
     \<lparr> textPointsCache = Map.empty, systems = [], camera = None, nebula = None,
       cursor = None, mouse = (0, 0), mode = COUNTDOWN, currentPaletteIndex = 1,
       isHandDetected = False, handGesture = IDLE, isPaused = False, lastTriggerTime = 0,
       currentAction = labelWaiting, rng = 0, timeouts = [], loops = [] \<rparr>"

subsection \<open>Shape rasterizer\<close>

definition shapeName :: "ShapeKind \<Rightarrow> jsstring" where
  "shapeName k = (case k of HEART \<Rightarrow> utf16 ''HEART'' | STAR \<Rightarrow> utf16 ''STAR'')"

definition heartPoints :: "Vector3 list" where
  "heartPoints =
     map (\<lambda>i. let t = real i / 3000 * pi * 2;
                   x = 16 * sin t ^ 3;
                   y = 13 * cos t - 5 * cos (2 * t) - 2 * cos (3 * t) - cos (4 * t)
               in \<lparr> vx = x * 1.2, vy = y * 1.2, vz = 0 \<rparr>) [0..<3000]"

text \<open>
  The scan of the bitmap, row by row: one point for each pixel whose alpha byte exceeds
  128, with one \<open>Math.random\<close> draw for its z. The height is \<open>fontSize * 1.5 = 150\<close>.
\<close>

definition scanPixel :: "Host \<Rightarrow> real \<Rightarrow> Bitmap \<Rightarrow> nat \<Rightarrow> nat \<Rightarrow>
    Vector3 list \<times> nat \<Rightarrow> Vector3 list \<times> nat" where
  "scanPixel h scale bmp y x = (\<lambda>(points, k).
     if data bmp ((y * width bmp + x) * 4 + 3) > 128
     then (points @ [\<lparr> vx = (real x - real (width bmp) / 2) * scale,
                       vy = - (real y - 150 / 2) * scale,
                       vz = (mathRandom h k - 0.5) * 1.0 \<rparr>], k + 1)
     else (points, k))"

definition scanPixels :: "Host \<Rightarrow> real \<Rightarrow> Bitmap \<Rightarrow> nat \<Rightarrow> Vector3 list \<times> nat" where
  "scanPixels h scale bmp k0 =
     fold (\<lambda>y. fold (scanPixel h scale bmp y) [0..<width bmp]) [0..<150] ([], k0)"

text \<open>\<open>shapeType ? shapeType : text\<close>: an absent or empty shape type is falsy.\<close>

definition cacheKeyOf :: "jsstring \<Rightarrow> jsstring option \<Rightarrow> jsstring" where
  "cacheKeyOf text shapeType =
     (case shapeType of None \<Rightarrow> text | Some t \<Rightarrow> if t = [] then text else t)"

text \<open>
  The cache is an object used as a dictionary; an array stored in it is truthy even when
  empty, so any stored entry is a hit. Keys are taken not to be names of
  \<open>Object.prototype\<close>.
\<close>

definition getPointsFromTextCanvas ::
    "Host \<Rightarrow> jsstring \<Rightarrow> real \<Rightarrow> jsstring option \<Rightarrow> Engine \<Rightarrow> Vector3 list \<times> Engine" where
  "getPointsFromTextCanvas h text scale shapeType s =
     (let cacheKey = cacheKeyOf text shapeType
      in case textPointsCache s cacheKey of
           Some cached \<Rightarrow> (cached, s)
         | None \<Rightarrow>
             if shapeType = Some (utf16 ''HEART'')
             then (heartPoints,
                   s\<lparr>textPointsCache := (textPointsCache s)(cacheKey \<mapsto> heartPoints)\<rparr>)
             else (case canvas h text of
                     None \<Rightarrow> ([], s)
                   | Some bmp \<Rightarrow>
                       let (points, k) = scanPixels h scale bmp (rng s)
                       in (points,
                           s\<lparr>textPointsCache := (textPointsCache s)(cacheKey \<mapsto> points),
                             rng := k\<rparr>)))"

subsection \<open>Spawning\<close>

text \<open>
  The system built by \<open>spawnRocketFirework\<close> for the target points. Particle \<open>i\<close> takes
  four draws (theta, phi, speed, palette index) starting at draw \<open>k + 4 * i\<close>; the draw
  after the last particle sets the rocket's speed.
\<close>

definition buildSystem ::
    "Host \<Rightarrow> Vector3 list \<Rightarrow> real \<Rightarrow> real \<Rightarrow> nat \<Rightarrow> nat \<Rightarrow> ParticleSystem" where
  "buildSystem h targets tX tY paletteIndex k =
     (let count = length targets;
          palette = snd (PALETTES ! paletteIndex);
          startX = tX; startY = - 60; startZ = 0
      in \<lparr> currentPositions = concat (map (\<lambda>i. [startX, startY, startZ]) [0..<count]),
           originalPositions =
             concat (map (\<lambda>i. [vx (targets ! i), vy (targets ! i), vz (targets ! i)]) [0..<count]),
           velocities =
             concat (map (\<lambda>i. let theta = mathRandom h (k + 4 * i) * pi * 2;
                                   phi = mathRandom h (k + 4 * i + 1) * pi;
                                   speed = 0.3 + mathRandom h (k + 4 * i + 2) * 1.2
                               in [speed * sin phi * cos theta,
                                   speed * sin phi * sin theta,
                                   speed * cos phi]) [0..<count]),
           colors =
             concat (map (\<lambda>i. let baseColorHex =
                                     palette ! nat \<lfloor>mathRandom h (k + 4 * i + 3) * real (length palette)\<rfloor>;
                                   (r, g, b) = setHex h baseColorHex
                               in [r, g, b]) [0..<count]),
           state = ROCKET,
           timer = 0,
           rocketPos = \<lparr> vx = startX, vy = startY, vz = startZ \<rparr>,
           rocketVelocity = \<lparr> vx = 0, vy = 0.8 + mathRandom h (k + 4 * count) * 0.4, vz = 0 \<rparr>,
           targetX = tX,
           targetY = tY,
           matSize = 0.25,
           matOpacity = 1 \<rparr>)"

text \<open>
  A call that can throw gives \<open>Inr\<close> of the state it leaves when it returns, and \<open>Inl\<close> of
  the error with the state at the throw otherwise. \<open>stateAfter\<close> is the state either way.
\<close>

type_synonym outcome = "(error \<times> Engine) + Engine"

definition stateAfter :: "outcome \<Rightarrow> Engine" where
  "stateAfter r = (case r of Inl (e, s) \<Rightarrow> s | Inr s \<Rightarrow> s)"

text \<open>
  With no point to show the spawn returns at once. Otherwise the buffers are filled, which
  takes the four draws of each particle, and the mesh is added to the scene: before
  \<open>init\<close> there is no scene and \<open>this.scene.add\<close> throws, with nothing pushed on the
  registry. After the push comes the draw of the rocket's speed.
\<close>

definition spawnRocketFirework ::
    "Host \<Rightarrow> jsstring \<Rightarrow> real \<Rightarrow> real \<Rightarrow> real \<Rightarrow> jsstring option \<Rightarrow> Engine \<Rightarrow> outcome" where
  "spawnRocketFirework h text scale tX tY shapeType s =
     (let (targets, s1) = getPointsFromTextCanvas h text scale shapeType s;
          count = length targets
      in if count = 0 then Inr s1
         else if camera s1 = None then Inl (TypeError, s1\<lparr>rng := rng s1 + 4 * count\<rparr>)
         else Inr (s1\<lparr>systems :=
                        systems s1 @ [buildSystem h targets tX tY (currentPaletteIndex s1) (rng s1)],
                      rng := rng s1 + 4 * count + 1\<rparr>))"

definition spawnSpecialShape :: "Host \<Rightarrow> ShapeKind \<Rightarrow> Engine \<Rightarrow> outcome" where
  "spawnSpecialShape h kind s =
     (let key = utf16 ''SHAPE_'' @ shapeName kind
      in spawnRocketFirework h key 1 0 0 (Some (shapeName kind)) s)"

definition randomTexts :: "jsstring list" where
  "randomTexts = [[0x798F], [0x6625], [0x559C], [0x2728], utf16 ''2026'', [0x2726], [0x2605]]"

definition spawnRandomFirework :: "Host \<Rightarrow> Engine \<Rightarrow> outcome" where
  "spawnRandomFirework h s =
     (let k = rng s;
          randText = randomTexts ! nat \<lfloor>mathRandom h k * real (length randomTexts)\<rfloor>;
          rx = (mathRandom h (k + 1) - 0.5) * 80;
          ry = (mathRandom h (k + 2) - 0.5) * 40
      in spawnRocketFirework h randText 0.25 rx ry None (s\<lparr>rng := k + 3\<rparr>))"

text \<open>
  \<open>triggerFinale\<close> schedules six timeouts, 200 ms apart; each runs \<open>spawnRandomFirework\<close>.
  An exception in a timeout's callback goes to the host and leaves the state as it is then.
\<close>

definition triggerFinale :: "int \<Rightarrow> Engine \<Rightarrow> Engine" where
  "triggerFinale now s = s\<lparr>timeouts := timeouts s @ map (\<lambda>i. now + int i * 200) [0..<6]\<rparr>"

definition fireTimeout :: "Host \<Rightarrow> Engine \<Rightarrow> Engine" where
  "fireTimeout h s =
     (case timeouts s of
        [] \<Rightarrow> s
      | t # rest \<Rightarrow> stateAfter (spawnRandomFirework h (s\<lparr>timeouts := rest\<rparr>)))"

subsection \<open>The animation step\<close>

definition dt :: real where
  "dt = 0.016"

text \<open>
  The particle loops run while \<open>j < positions.length / 3\<close>, a division of numbers.
  A typed array has a fixed length and ignores a write beyond it, as \<open>xs[i := v]\<close> does.
\<close>

definition particleIters :: "real list \<Rightarrow> nat" where
  "particleIters positions = (length positions + 2) div 3"

text \<open>\<open>v || 0\<close> on a number.\<close>

definition orZero :: "real \<Rightarrow> real" where
  "orZero v = (if v = 0 then 0 else v)"

definition addV :: "Vector3 \<Rightarrow> Vector3 \<Rightarrow> Vector3" where
  "addV a b = \<lparr> vx = vx a + vx b, vy = vy a + vy b, vz = vz a + vz b \<rparr>"

definition subV :: "Vector3 \<Rightarrow> Vector3 \<Rightarrow> Vector3" where
  "subV a b = \<lparr> vx = vx a - vx b, vy = vy a - vy b, vz = vz a - vz b \<rparr>"

definition multiplyScalar :: "Vector3 \<Rightarrow> real \<Rightarrow> Vector3" where
  "multiplyScalar a c = \<lparr> vx = vx a * c, vy = vy a * c, vz = vz a * c \<rparr>"

text \<open>\<open>normalize\<close> divides by the length, or by 1 when the length is 0.\<close>

definition normalize :: "Vector3 \<Rightarrow> Vector3" where
  "normalize a =
     (let l = sqrt (vx a * vx a + vy a * vy a + vz a * vz a);
          d = (if l = 0 then 1 else l)
      in multiplyScalar a (1 / d))"

text \<open>
  ROCKET, particle \<open>j\<close>: three draws (lag, x offset, z offset) starting at \<open>k + 3 * j\<close>.
  The color written is computed from the color read in the same array.
\<close>

definition rocketParticle :: "Host \<Rightarrow> nat \<Rightarrow> Vector3 \<Rightarrow> nat \<Rightarrow>
    real list \<times> real list \<Rightarrow> real list \<times> real list" where
  "rocketParticle h k rp j = (\<lambda>(positions, cols).
     let lag = mathRandom h (k + 3 * j);
         lagCurve = lag ^ 6;
         spread = 0.05 + lagCurve * 0.4;
         positions' = positions
           [j * 3 := vx rp + (mathRandom h (k + 3 * j + 1) - 0.5) * spread,
            j * 3 + 1 := vy rp - lagCurve * 8.0,
            j * 3 + 2 := vz rp + (mathRandom h (k + 3 * j + 2) - 0.5) * spread];
         cols' =
           (if lagCurve < 0.02
            then cols[j * 3 := 1.0, j * 3 + 1 := 1.0, j * 3 + 2 := 1.0]
            else let fade = 1.0 - lagCurve;
                     dimFactor = 0.6 * fade
                 in cols[j * 3 := cols ! (j * 3) * dimFactor,
                         j * 3 + 1 := cols ! (j * 3 + 1) * dimFactor,
                         j * 3 + 2 := cols ! (j * 3 + 2) * dimFactor])
     in (positions', cols'))"

text \<open>
  On reaching the target height the source copies \<open>sys.colors\<close> into the mesh's color
  array, which is \<open>sys.colors\<close> itself: the copy changes nothing.
\<close>

definition tickRocket :: "Host \<Rightarrow> nat \<Rightarrow> ParticleSystem \<Rightarrow> ParticleSystem option \<times> nat" where
  "tickRocket h k sys =
     (let n = particleIters (currentPositions sys);
          rp = addV (rocketPos sys) (rocketVelocity sys);
          (positions, cols) =
             fold (rocketParticle h k rp) [0..<n] (currentPositions sys, colors sys);
          sys1 = sys\<lparr>rocketPos := rp, currentPositions := positions, colors := cols\<rparr>;
          sys2 = (if vy rp \<ge> orZero (targetY sys)
                  then sys1\<lparr>state := EXPLODING, timer := 0, matSize := 0.18\<rparr>
                  else sys1)
      in (Some sys2, k + 3 * n))"

definition explodingParticle :: "nat \<Rightarrow> real list \<times> real list \<Rightarrow> real list \<times> real list" where
  "explodingParticle j = (\<lambda>(positions, vels).
     (positions[j * 3 := positions ! (j * 3) + vels ! (j * 3),
                j * 3 + 1 := positions ! (j * 3 + 1) + vels ! (j * 3 + 1),
                j * 3 + 2 := positions ! (j * 3 + 2) + vels ! (j * 3 + 2)],
      vels[j * 3 := vels ! (j * 3) * 0.9,
           j * 3 + 1 := vels ! (j * 3 + 1) * 0.9,
           j * 3 + 2 := vels ! (j * 3 + 2) * 0.9]))"

definition tickExploding :: "nat \<Rightarrow> ParticleSystem \<Rightarrow> ParticleSystem option \<times> nat" where
  "tickExploding k sys =
     (let n = particleIters (currentPositions sys);
          (positions, vels) = fold explodingParticle [0..<n] (currentPositions sys, velocities sys);
          sys1 = sys\<lparr>currentPositions := positions, velocities := vels\<rparr>;
          sys2 = (if timer sys1 > 0.6 then sys1\<lparr>state := WEAVING, timer := 0\<rparr> else sys1)
      in (Some sys2, k))"

text \<open>WEAVING, particle \<open>j\<close>: the pull toward the target, then three draws of jitter.\<close>

definition weavingParticle :: "Host \<Rightarrow> nat \<Rightarrow> ParticleSystem \<Rightarrow> real \<Rightarrow> real \<Rightarrow> nat \<Rightarrow>
    real list \<Rightarrow> real list" where
  "weavingParticle h k sys moveFactor spread j positions =
     (let px = positions ! (j * 3);
          py = positions ! (j * 3 + 1);
          pz = positions ! (j * 3 + 2);
          tx = originalPositions sys ! (j * 3) + orZero (targetX sys);
          ty = originalPositions sys ! (j * 3 + 1) + orZero (targetY sys);
          tz = originalPositions sys ! (j * 3 + 2)
      in positions
           [j * 3 := px + (tx - px) * moveFactor + (mathRandom h (k + 3 * j) - 0.5) * spread,
            j * 3 + 1 := py + (ty - py) * moveFactor + (mathRandom h (k + 3 * j + 1) - 0.5) * spread,
            j * 3 + 2 := pz + (tz - pz) * moveFactor + (mathRandom h (k + 3 * j + 2) - 0.5) * spread])"

definition tickWeaving :: "Host \<Rightarrow> nat \<Rightarrow> ParticleSystem \<Rightarrow> ParticleSystem option \<times> nat" where
  "tickWeaving h k sys =
     (let n = particleIters (currentPositions sys);
          weaveDuration = 2.4;
          progress = min (timer sys / weaveDuration) 1.0;
          moveFactor = 0.1 * (1.0 - progress ^ 2);
          spreadBase = 0.02;
          spread = spreadBase + progress * 0.1;
          opacity = (if progress > 0.6 then 1.0 - ((progress - 0.6) / 0.4) * 0.5 else 1.0);
          positions = fold (weavingParticle h k sys moveFactor spread) [0..<n] (currentPositions sys);
          sys1 = sys\<lparr>matOpacity := opacity, currentPositions := positions\<rparr>;
          sys2 = (if timer sys1 > weaveDuration then sys1\<lparr>state := FADING\<rparr> else sys1)
      in (Some sys2, k + 3 * n))"

definition fadingParticle :: "Host \<Rightarrow> nat \<Rightarrow> nat \<Rightarrow> real list \<Rightarrow> real list" where
  "fadingParticle h k j positions =
     (let p1 = positions[j * 3 + 1 := positions ! (j * 3 + 1) - 0.05];
          p2 = p1[j * 3 := p1 ! (j * 3) + (mathRandom h (k + 2 * j) - 0.5) * 0.15]
      in p2[j * 3 + 2 := p2 ! (j * 3 + 2) + (mathRandom h (k + 2 * j + 1) - 0.5) * 0.15])"

text \<open>FADING ends with the system spliced out of the registry: the result \<open>None\<close>.\<close>

definition tickFading :: "Host \<Rightarrow> nat \<Rightarrow> ParticleSystem \<Rightarrow> ParticleSystem option \<times> nat" where
  "tickFading h k sys =
     (let n = particleIters (currentPositions sys);
          opacity = matOpacity sys - 0.02;
          positions = fold (fadingParticle h k) [0..<n] (currentPositions sys);
          sys1 = sys\<lparr>matOpacity := opacity, currentPositions := positions\<rparr>
      in (if opacity \<le> 0 then None else Some sys1, k + 2 * n))"

text \<open>
  The body of the loop over the systems, for one system: the timer advances, then the
  branch of the system's state runs. \<open>k\<close> is the number of draws made before.
\<close>

definition tickSystem :: "Host \<Rightarrow> nat \<Rightarrow> ParticleSystem \<Rightarrow> ParticleSystem option \<times> nat" where
  "tickSystem h k sys0 =
     (let sys = sys0\<lparr>timer := timer sys0 + dt\<rparr>
      in case state sys of
           ROCKET \<Rightarrow> tickRocket h k sys
         | EXPLODING \<Rightarrow> tickExploding k sys
         | WEAVING \<Rightarrow> tickWeaving h k sys
         | FADING \<Rightarrow> tickFading h k sys)"

text \<open>
  The loop runs from the last system to the first and splices a finished system out at
  its own index, so the systems before it keep their places.
\<close>

fun tickAll :: "Host \<Rightarrow> nat \<Rightarrow> ParticleSystem list \<Rightarrow> ParticleSystem list \<times> nat" where
  "tickAll h k [] = ([], k)"
| "tickAll h k (sys # rest) =
     (let (rest', k1) = tickAll h k rest;
          (r, k2) = tickSystem h k1 sys
      in (case r of None \<Rightarrow> rest' | Some sys' \<Rightarrow> sys' # rest', k2))"

text \<open>
  One frame. Without a camera the cursor computation throws; \<open>animate\<close> is first called
  by \<open>init\<close>, after the camera is created. The camera stays on the z axis.
\<close>

definition zoomSpeed :: real where
  "zoomSpeed = 0.2"

text \<open>The continuous gesture actions: one zoom step for a detected PINCH or OPEN_PALM.\<close>

definition applyZoom :: "Engine \<Rightarrow> real \<Rightarrow> Engine" where
  "applyZoom s z =
     (if isHandDetected s then
        (if handGesture s = PINCH
         then s\<lparr>camera := Some (max 10 (z - zoomSpeed)), currentAction := labelZoomIn\<rparr>
         else if handGesture s = OPEN_PALM
         then s\<lparr>camera := Some (min 120 (z + zoomSpeed)), currentAction := labelZoomOut\<rparr>
         else s)
      else s)"

text \<open>
  The cursor is put where the ray through the pointer meets the plane z = 0; it is shown
  while a hand is detected, red when paused and cyan otherwise. \<open>cz\<close> is the camera's z.
\<close>

definition updateCursor :: "Host \<Rightarrow> Engine \<Rightarrow> real \<Rightarrow> Engine" where
  "updateCursor h s cz =
     (let camPos = \<lparr> vx = 0, vy = 0, vz = cz \<rparr>;
          vec = unproject h cz \<lparr> vx = fst (mouse s), vy = snd (mouse s), vz = 0.5 \<rparr>;
          dir = normalize (subV vec camPos);
          distance = (0 - cz) / vz dir;
          interactPos = addV camPos (multiplyScalar dir distance)
      in s\<lparr>cursor := map_option
             (\<lambda>c. c\<lparr>cursorPos := interactPos,
                    cursorVisible := isHandDetected s,
                    cursorColor := (if isHandDetected s
                                    then (if isPaused s then 0xff0000 else 0x00ffff)
                                    else cursorColor c)\<rparr>) (cursor s)\<rparr>)"

definition animate :: "Host \<Rightarrow> Engine \<Rightarrow> error + Engine" where
  "animate h s =
     (case camera s of
        None \<Rightarrow> Inl TypeError
      | Some z \<Rightarrow>
          let s1 = s\<lparr>nebula := map_option (\<lambda>r. r + 0.0002) (nebula s)\<rparr>;
              s2 = applyZoom s1 z;
              cz = (case camera s2 of Some c \<Rightarrow> c | None \<Rightarrow> z);
              s3 = updateCursor h s2 cz
          in if isPaused s3 then Inr s3
             else let (syss, k) = tickAll h (rng s3) (systems s3)
                  in Inr (s3\<lparr>systems := syss, rng := k\<rparr>))"

text \<open>\<open>init\<close> creates the camera at z = 50, the nebula and the hidden cursor, and starts the frames.\<close>

definition init :: "Host \<Rightarrow> Engine \<Rightarrow> error + Engine" where
  "init h s =
     animate h (s\<lparr>camera := Some 50, nebula := Some 0,
                  cursor := Some \<lparr> cursorPos = \<lparr> vx = 0, vy = 0, vz = 0 \<rparr>,
                                   cursorVisible = False, cursorColor = 0x00ffff \<rparr>,
                  currentAction := labelReady\<rparr>)"

subsection \<open>Interaction\<close>

text \<open>
  \<open>now\<close> is the value of \<open>Date.now()\<close> at the call. The result is the state the call
  leaves. A throw of the heart's spawn would end the call before the timestamp and the
  label are written; the spawn throws only without a scene, which the guard on the camera
  excludes (\<open>spawnSpecialShape_returns\<close> below), so \<open>updateHand\<close> always returns.
\<close>

definition updateHand ::
    "Host \<Rightarrow> int \<Rightarrow> real \<Rightarrow> real \<Rightarrow> GestureType \<Rightarrow> bool \<Rightarrow> Engine \<Rightarrow> Engine" where
  "updateHand h now x y g present s =
     (if camera s = None then s
      else
        let s1 = s\<lparr>isHandDetected := present, handGesture := g,
                   mouse := ((x * 2) - 1, - (y * 2) + 1)\<rparr>
        in if \<not> present then s1\<lparr>currentAction := labelNoSignal\<rparr>
           else if g = V_SIGN then
             (if now - lastTriggerTime s1 > 1500
              then (case spawnSpecialShape h HEART s1 of
                      Inl (e, s2) \<Rightarrow> s2
                    | Inr s2 \<Rightarrow> s2\<lparr>lastTriggerTime := now, currentAction := labelLove\<rparr>)
              else s1)
           else if g = OK_SIGN then
             (if now - lastTriggerTime s1 > 3000
              then (triggerFinale now s1)\<lparr>lastTriggerTime := now, currentAction := labelFinale\<rparr>
              else s1)
           else if g = PINCH \<or> g = OPEN_PALM then s1
           else s1\<lparr>currentAction := labelReady\<rparr>)"

text \<open>
  \<open>cyclePalette\<close> draws palette indices until one differs from the current index. The
  loop need not end, so its result is optional. Nothing in the service calls it.
\<close>

partial_function (option) cycleLoop :: "Host \<Rightarrow> nat \<Rightarrow> nat \<Rightarrow> nat \<Rightarrow> (nat \<times> nat) option" where
  "cycleLoop h current nextIndex k =
     (if nextIndex = current
      then cycleLoop h current (nat \<lfloor>mathRandom h k * real (length PALETTES)\<rfloor>) (k + 1)
      else Some (nextIndex, k))"

definition cyclePalette :: "Host \<Rightarrow> Engine \<Rightarrow> Engine option" where
  "cyclePalette h s =
     map_option (\<lambda>(i, k). s\<lparr>currentPaletteIndex := i, rng := k\<rparr>)
       (cycleLoop h (currentPaletteIndex s) (currentPaletteIndex s) (rng s))"

subsection \<open>The scripted sequence\<close>

definition textSequence :: "jsstring list" where
  "textSequence =
     [utf16 ''2026'', [0x795D, 0x5927, 0x5BB6], [0x65B0, 0x5E74, 0x5FEB, 0x4E50],
      [0x9A6C, 0x5230, 0x6210, 0x529F]]"

text \<open>
  \<open>runTextLoop\<close> is cut at its two \<open>await\<close>s. \<open>loopSpawn\<close> is the stretch from the
  spawn to the first sleep of the display wait, \<open>loopPauseCheck\<close> the test of the pause
  loop, \<open>loopTop\<close> the head of the outer loop, and \<open>loopWake\<close> what runs when a sleep of
  100 ms ends. A spawn that throws ends the loop; \<open>startShow\<close> itself still returns, since
  the exception stays in the promise of \<open>runTextLoop\<close>.
\<close>

definition loopSpawn :: "Host \<Rightarrow> Engine \<Rightarrow> TextLoop \<Rightarrow> Engine \<times> TextLoop" where
  "loopSpawn h s task =
     (let text = textSequence ! index task;
          scale = (if length text > 2 then 0.25 else 0.35)
      in case spawnRocketFirework h text scale 0 0 None s of
           Inl (e, s') \<Rightarrow> (s', task\<lparr>phase := Rejected\<rparr>)
         | Inr s' \<Rightarrow> (s', task\<lparr>phase := DisplayWait, elapsed := 0\<rparr>))"

definition loopPauseCheck :: "Host \<Rightarrow> Engine \<Rightarrow> TextLoop \<Rightarrow> Engine \<times> TextLoop" where
  "loopPauseCheck h s task =
     (if isPaused s then (s, task\<lparr>phase := PauseWait\<rparr>) else loopSpawn h s task)"

definition loopTop :: "Host \<Rightarrow> Engine \<Rightarrow> TextLoop \<Rightarrow> Engine \<times> TextLoop" where
  "loopTop h s task =
     (if mode s \<noteq> SHOW then (s, task\<lparr>phase := Stopped\<rparr>) else loopPauseCheck h s task)"

definition loopWake :: "Host \<Rightarrow> Engine \<Rightarrow> TextLoop \<Rightarrow> Engine \<times> TextLoop" where
  "loopWake h s task =
     (case phase task of
        Stopped \<Rightarrow> (s, task)
      | Rejected \<Rightarrow> (s, task)
      | PauseWait \<Rightarrow> loopPauseCheck h s task
      | DisplayWait \<Rightarrow>
          let e = (if \<not> isPaused s then elapsed task + 100 else elapsed task)
          in if e < 4000 then (s, task\<lparr>elapsed := e\<rparr>)
             else loopTop h s (task\<lparr>elapsed := e, index := (index task + 1) mod length textSequence\<rparr>))"

definition startShow :: "Host \<Rightarrow> Engine \<Rightarrow> Engine" where
  "startShow h s =
     (let s1 = s\<lparr>currentAction := labelShowStarted, mode := SHOW\<rparr>;
          (s2, task) = loopTop h s1 \<lparr> phase = Stopped, index = 0, elapsed = 0 \<rparr>
      in s2\<lparr>loops := loops s2 @ [task]\<rparr>)"

definition wakeLoop :: "Host \<Rightarrow> nat \<Rightarrow> Engine \<Rightarrow> Engine" where
  "wakeLoop h i s =
     (if i < length (loops s)
      then let (s', task) = loopWake h s (loops s ! i)
           in s'\<lparr>loops := (loops s')[i := task]\<rparr>
      else s)"

subsection \<open>Runs of the engine\<close>

text \<open>
  Everything that can happen to the service: the calls of its public surface, a frame,
  the end of a sleep of a text loop, a finale timeout, and a write to the public pause
  signal. \<open>step\<close> gives the state the operation leaves, also when the call ends by an
  exception. A frame is requested only from \<open>animate\<close> itself, so none runs before \<open>init\<close>.
  A resize of the window changes the camera's aspect and the renderer's size only, which
  are not part of the state kept here.
\<close>

datatype Op =
    OpInit
  | OpStartShow
  | OpUpdateHand int real real GestureType bool
  | OpSpawnSpecialShape ShapeKind
  | OpSetPaused bool
  | OpFrame
  | OpLoopWake nat
  | OpTimeout

definition orElse :: "error + Engine \<Rightarrow> Engine \<Rightarrow> Engine" where
  "orElse r s = (case r of Inl e \<Rightarrow> s | Inr s' \<Rightarrow> s')"

fun step :: "Host \<Rightarrow> Engine \<Rightarrow> Op \<Rightarrow> Engine" where
  "step h s OpInit = orElse (init h s) s"
| "step h s OpStartShow = startShow h s"
| "step h s (OpUpdateHand now x y g present) = updateHand h now x y g present s"
| "step h s (OpSpawnSpecialShape kind) = stateAfter (spawnSpecialShape h kind s)"
| "step h s (OpSetPaused b) = s\<lparr>isPaused := b\<rparr>"
| "step h s OpFrame = (if camera s = None then s else orElse (animate h s) s)"
| "step h s (OpLoopWake i) = wakeLoop h i s"
| "step h s OpTimeout = fireTimeout h s"

definition run :: "Host \<Rightarrow> Op list \<Rightarrow> Engine \<Rightarrow> Engine" where
  "run h ops s = foldl (step h) s ops"

subsection \<open>Notions used to state the properties\<close>

text \<open>
  The successive states of one system under a sequence of ticks; \<open>ks\<close> gives, for each
  tick, the number of draws made before the system's turn. A removed system (\<open>None\<close>)
  is not ticked any more.
\<close>

fun lifecycle :: "Host \<Rightarrow> nat list \<Rightarrow> ParticleSystem option \<Rightarrow> ParticleSystem option list" where
  "lifecycle h [] r = [r]"
| "lifecycle h (k # ks) r =
     r # lifecycle h ks (case r of None \<Rightarrow> None | Some sys \<Rightarrow> fst (tickSystem h k sys))"

definition stage :: "ParticleSystem option \<Rightarrow> nat" where
  "stage r =
     (case r of
        None \<Rightarrow> 4
      | Some sys \<Rightarrow> (case state sys of ROCKET \<Rightarrow> 0 | EXPLODING \<Rightarrow> 1 | WEAVING \<Rightarrow> 2 | FADING \<Rightarrow> 3))"

text \<open>Each element is its predecessor or the successor of its predecessor.\<close>

fun inOrder :: "nat list \<Rightarrow> bool" where
  "inOrder (a # b # rest) = ((b = a \<or> b = Suc a) \<and> inOrder (b # rest))"
| "inOrder rest = True"

definition hasCount :: "nat \<Rightarrow> ParticleSystem option \<Rightarrow> bool" where
  "hasCount n r =
     (case r of
        None \<Rightarrow> True
      | Some sys \<Rightarrow>
          length (currentPositions sys) = 3 * n \<and> length (originalPositions sys) = 3 * n \<and>
          length (velocities sys) = 3 * n \<and> length (colors sys) = 3 * n)"

definition sameCount :: "ParticleSystem \<Rightarrow> ParticleSystem \<Rightarrow> bool" where
  "sameCount a b \<longleftrightarrow>
     length (currentPositions a) = length (currentPositions b) \<and>
     length (originalPositions a) = length (originalPositions b) \<and>
     length (velocities a) = length (velocities b) \<and>
     length (colors a) = length (colors b)"

definition zoomInRange :: "Engine \<Rightarrow> bool" where
  "zoomInRange s = (case camera s of None \<Rightarrow> True | Some z \<Rightarrow> 10 \<le> z \<and> z \<le> 120)"

text \<open>Each particle's color triple is \<open>setHex\<close> of one of the given colors.\<close>

definition drawnFrom :: "Host \<Rightarrow> nat list \<Rightarrow> ParticleSystem \<Rightarrow> bool" where
  "drawnFrom h palette sys \<longleftrightarrow>
     (\<forall>j < length (colors sys) div 3.
        \<exists>c \<in> set palette.
          (colors sys ! (j * 3), colors sys ! (j * 3 + 1), colors sys ! (j * 3 + 2)) = setHex h c)"

text \<open>
  The registry of \<open>s'\<close> is the registry of \<open>s\<close> followed by new systems, each with its
  colors drawn from the given palette.
\<close>

definition spawnsFrom :: "Host \<Rightarrow> nat list \<Rightarrow> Engine \<Rightarrow> Engine \<Rightarrow> bool" where
  "spawnsFrom h palette s s' \<longleftrightarrow>
     (\<exists>new. systems s' = systems s @ new \<and> list_all (drawnFrom h palette) new)"

text \<open>The heart's cache entry is absent or holds the heart's points.\<close>

definition heartCache :: "Engine \<Rightarrow> bool" where
  "heartCache s \<longleftrightarrow>
     textPointsCache s (utf16 ''HEART'') = None \<or>
     textPointsCache s (utf16 ''HEART'') = Some heartPoints"

text \<open>Moreover, every text loop's index lies within the sequence.\<close>

definition heartReady :: "Engine \<Rightarrow> bool" where
  "heartReady s \<longleftrightarrow>
     heartCache s \<and> list_all (\<lambda>task. index task < length textSequence) (loops s)"

text \<open>\<open>s'\<close> differs from \<open>s\<close> at most in the shape cache, the registry and the draw count.\<close>

definition onlySpawned :: "Engine \<Rightarrow> Engine \<Rightarrow> bool" where
  "onlySpawned s s' \<longleftrightarrow>
     s' = s\<lparr>textPointsCache := textPointsCache s', systems := systems s', rng := rng s'\<rparr>"

text \<open>
  A bound on the ticks a system has left before it is removed, read off its state: the
  ticks the rocket needs to reach the target height at its speed, the ticks of \<open>dt\<close> the
  timer needs to pass 0.6 s and 2.4 s, the steps of 0.02 the opacity needs to reach 0.
  The constants add one to the bound of the state that follows, entered with timer 0 or
  with opacity at most 1.
\<close>

definition ticksLeft :: "ParticleSystem \<Rightarrow> nat" where
  "ticksLeft sys =
     (case state sys of
        ROCKET \<Rightarrow>
          nat \<lceil>(orZero (targetY sys) - vy (rocketPos sys)) / vy (rocketVelocity sys)\<rceil> + 241
      | EXPLODING \<Rightarrow> nat \<lceil>(0.6 - timer sys) / dt\<rceil> + 202
      | WEAVING \<Rightarrow> nat \<lceil>(2.4 - timer sys) / dt\<rceil> + 51
      | FADING \<Rightarrow> nat \<lceil>matOpacity sys / 0.02\<rceil>)"

subsection \<open>Concrete inputs\<close>

text \<open>
  A host whose canvas draws the text \<open>A\<close> as a single opaque pixel in the top row of a
  bitmap one pixel wide, and every other text as a blank bitmap; every draw of
  \<open>Math.random\<close> is 1/2, and \<open>setHex\<close> reads the three bytes of the color.
\<close>

definition dotBitmap :: Bitmap where
  "dotBitmap = \<lparr> width = 1, data = (\<lambda>i. if i = 3 then 255 else 0) \<rparr>"

definition blankBitmap :: Bitmap where
  "blankBitmap = \<lparr> width = 28, data = (\<lambda>i. 0) \<rparr>"

definition demoHost :: Host where
  "demoHost =
     \<lparr> mathRandom = (\<lambda>n. 1 / 2),
       canvas = (\<lambda>text. if text = utf16 ''A'' then Some dotBitmap else Some blankBitmap),
       setHex = (\<lambda>hex. (real (hex div 65536 mod 256) / 255, real (hex div 256 mod 256) / 255,
                         real (hex mod 256) / 255)),
       unproject = (\<lambda>z v. v) \<rparr>"

text \<open>The service after \<open>init\<close>, with no frame run yet.\<close>

definition readyEngine :: Engine where
  "readyEngine =
     newEngine\<lparr>camera := Some 50, nebula := Some 0,
               cursor := Some \<lparr> cursorPos = \<lparr> vx = 0, vy = 0, vz = 0 \<rparr>,
                                cursorVisible = False, cursorColor = 0x00ffff \<rparr>,
               currentAction := labelReady\<rparr>"

definition textA :: jsstring where
  "textA = utf16 ''A''"

definition textSpace :: jsstring where
  "textSpace = utf16 '' ''"

text \<open>The first request for the text \<open>A\<close>, at scale 1, on a fresh service.\<close>

definition firstRequest :: "Vector3 list \<times> Engine" where
  "firstRequest = getPointsFromTextCanvas demoHost textA 1 None newEngine"

text \<open>A paused service with a pinching hand and one system of one particle, mid-weave.\<close>

definition weavingSystem :: ParticleSystem where
  "weavingSystem =
     \<lparr> currentPositions = [1, 2, 3], originalPositions = [- (1 / 2), 75, 0],
       velocities = [0, 0, 0], colors = [1, 1, 1], state = WEAVING, timer = 1,
       rocketPos = \<lparr> vx = 0, vy = 0, vz = 0 \<rparr>, rocketVelocity = \<lparr> vx = 0, vy = 1, vz = 0 \<rparr>,
       targetX = 0, targetY = 0, matSize = 0.18, matOpacity = 1 \<rparr>"

definition pausedEngine :: Engine where
  "pausedEngine =
     readyEngine\<lparr>isPaused := True, isHandDetected := True, handGesture := PINCH,
                 systems := [weavingSystem]\<rparr>"

definition waitingLoop :: TextLoop where
  "waitingLoop = \<lparr> phase = DisplayWait, index = 0, elapsed = 1200 \<rparr>"

text \<open>A service with an open palm detected and the camera at its far bound.\<close>

definition palmEngine :: Engine where
  "palmEngine = readyEngine\<lparr>camera := Some 120, isHandDetected := True, handGesture := OPEN_PALM\<rparr>"

definition orangeName :: jsstring where
  "orangeName = 0x6A59 # utf16 '' (Orange)''"

definition orangeColors :: "nat list" where
  "orangeColors = [0xFF7F00, 0xFFA500, 0xFFD700, 0xFFFFFF, 0xFF4500]"

definition demoOps :: "Op list" where
  "demoOps = [OpInit, OpStartShow, OpUpdateHand 5000 (1 / 2) (1 / 2) PINCH True, OpFrame, OpFrame]"

text \<open>The points of the text \<open>A\<close> on that host, the system spawned for them at the
  center, and four hundred ticks.\<close>

definition demoTargets :: "Vector3 list" where
  "demoTargets = [\<lparr> vx = - (1 / 2), vy = 75, vz = 0 \<rparr>]"

definition demoSystem :: ParticleSystem where
  "demoSystem = buildSystem demoHost demoTargets 0 0 1 1"

definition demoTicks :: "nat list" where
  "demoTicks = map (\<lambda>i. 6 + 3 * i) [0..<400]"

text \<open>The initialised service right after the spawn of the text \<open>A\<close> at the center.\<close>

definition launchedEngine :: Engine where
  "launchedEngine = stateAfter (spawnRocketFirework demoHost textA 1 0 0 None readyEngine)"

section \<open>Properties\<close>

subsection \<open>The classifier\<close>

lemma getDistance_origin_unitX [simp]:
  "getDistance origin unitX = 1" "getDistance unitX origin = 1"
  "getDistance origin origin = 0" "getDistance unitX unitX = 0"
  by (simp_all add: getDistance_def origin_def unitX_def)

text \<open>
  C7. For a hand of 21 landmarks the classifier returns a hand state. When the distance
  between thumb tip (4) and index tip (8) is at least 0.05 the gesture is neither PINCH
  nor OK_SIGN. When the distance is below 0.05 and index, middle, ring and pinky are not
  all curled, the gesture is OK_SIGN if middle, ring and pinky are extended, PINCH otherwise.
\<close>

theorem processHand_pinch_threshold:
  assumes "length landmarks = 21"
  shows "\<exists>hs. processHand landmarks = Inr hs \<and>
           (getDistance (landmarks ! 4) (landmarks ! 8) \<ge> 0.05 \<longrightarrow>
              gesture hs \<noteq> PINCH \<and> gesture hs \<noteq> OK_SIGN) \<and>
           (getDistance (landmarks ! 4) (landmarks ! 8) < 0.05 \<and>
            \<not> (\<not> isFingerExtended landmarks 8 \<and> \<not> isFingerExtended landmarks 12 \<and>
               \<not> isFingerExtended landmarks 16 \<and> \<not> isFingerExtended landmarks 20) \<longrightarrow>
              gesture hs =
                (if isFingerExtended landmarks 12 \<and> isFingerExtended landmarks 16 \<and>
                    isFingerExtended landmarks 20
                 then OK_SIGN else PINCH))"
  using assms by (simp add: processHand_def Let_def)

lemma nth_hands [simp]:
  "handPeace ! 0 = origin" "handPeace ! 4 = origin" "handPeace ! 8 = unitX"
  "handOk ! 0 = origin" "handOk ! 4 = unitX" "handOk ! 8 = unitX"
  "handPinch ! 0 = origin" "handPinch ! 4 = unitX" "handPinch ! 8 = unitX"
  by (simp_all add: handPeace_def handOk_def handPinch_def)

lemma ext_hands [simp]:
  "isFingerExtended handPeace 8" "isFingerExtended handPeace 12"
  "\<not> isFingerExtended handPeace 16" "\<not> isFingerExtended handPeace 20"
  "isFingerExtended handOk 8" "isFingerExtended handOk 12"
  "isFingerExtended handOk 16" "isFingerExtended handOk 20"
  "isFingerExtended handPinch 8" "\<not> isFingerExtended handPinch 12"
  "\<not> isFingerExtended handPinch 16" "\<not> isFingerExtended handPinch 20"
  by (simp_all add: isFingerExtended_def handPeace_def handOk_def handPinch_def)

theorem processHand_pinch_threshold_witness:
  "length handPeace = 21 \<and> getDistance (handPeace ! 4) (handPeace ! 8) \<ge> 0.05 \<and>
   (\<exists>hs. processHand handPeace = Inr hs \<and> gesture hs = V_SIGN) \<and>
   length handOk = 21 \<and> getDistance (handOk ! 4) (handOk ! 8) < 0.05 \<and>
   isFingerExtended handOk 8 \<and>
   (\<exists>hs. processHand handOk = Inr hs \<and> gesture hs = OK_SIGN) \<and>
   length handPinch = 21 \<and> getDistance (handPinch ! 4) (handPinch ! 8) < 0.05 \<and>
   isFingerExtended handPinch 8 \<and>
   (\<exists>hs. processHand handPinch = Inr hs \<and> gesture hs = PINCH)"
proof -
  have l: "length handPeace = 21" "length handOk = 21" "length handPinch = 21"
    by (simp_all add: handPeace_def handOk_def handPinch_def)
  show ?thesis
    using processHand_pinch_threshold [OF l(1)] processHand_pinch_threshold [OF l(2)]
      processHand_pinch_threshold [OF l(3)] l
    by (simp add: processHand_def Let_def)
qed

subsection \<open>Particle buffers and stages under a tick\<close>

lemma rocketParticle_length:
  "length (fst (rocketParticle h k rp j pc)) = length (fst pc)"
  "length (snd (rocketParticle h k rp j pc)) = length (snd pc)"
  by (cases pc; simp add: rocketParticle_def Let_def)+

lemma fold_rocketParticle_length:
  "length (fst (fold (rocketParticle h k rp) js pc)) = length (fst pc) \<and>
   length (snd (fold (rocketParticle h k rp) js pc)) = length (snd pc)"
  by (induction js arbitrary: pc) (simp_all add: rocketParticle_length)

lemma explodingParticle_length:
  "length (fst (explodingParticle j pv)) = length (fst pv)"
  "length (snd (explodingParticle j pv)) = length (snd pv)"
  by (cases pv; simp add: explodingParticle_def)+

lemma fold_explodingParticle_length:
  "length (fst (fold explodingParticle js pv)) = length (fst pv) \<and>
   length (snd (fold explodingParticle js pv)) = length (snd pv)"
  by (induction js arbitrary: pv) (simp_all add: explodingParticle_length)

lemma fold_weavingParticle_length:
  "length (fold (weavingParticle h k sys m sp) js p) = length p"
  by (induction js arbitrary: p) (simp_all add: weavingParticle_def Let_def)

lemma fold_fadingParticle_length:
  "length (fold (fadingParticle h k) js p) = length p"
  by (induction js arbitrary: p) (simp_all add: fadingParticle_def Let_def)

lemma tickRocket_cases:
  "\<exists>sys'. fst (tickRocket h k sys) = Some sys' \<and> sameCount sys' sys \<and>
      (state sys' = state sys \<or> state sys' = EXPLODING)"
  using fold_rocketParticle_length
    [of h k "addV (rocketPos sys) (rocketVelocity sys)" "[0..<particleIters (currentPositions sys)]"
        "(currentPositions sys, colors sys)"]
  by (auto simp: tickRocket_def Let_def sameCount_def split: prod.splits)

lemma tickExploding_cases:
  "\<exists>sys'. fst (tickExploding k sys) = Some sys' \<and> sameCount sys' sys \<and>
      (state sys' = state sys \<or> state sys' = WEAVING)"
  using fold_explodingParticle_length
    [of "[0..<particleIters (currentPositions sys)]" "(currentPositions sys, velocities sys)"]
  by (auto simp: tickExploding_def Let_def sameCount_def split: prod.splits)

lemma tickWeaving_cases:
  "\<exists>sys'. fst (tickWeaving h k sys) = Some sys' \<and> sameCount sys' sys \<and>
      (state sys' = state sys \<or> state sys' = FADING)"
  by (simp add: tickWeaving_def Let_def sameCount_def fold_weavingParticle_length)

lemma tickFading_cases:
  "fst (tickFading h k sys) = None \<or>
   (\<exists>sys'. fst (tickFading h k sys) = Some sys' \<and> sameCount sys' sys \<and> state sys' = state sys)"
  by (simp add: tickFading_def Let_def sameCount_def fold_fadingParticle_length)

lemma sameCount_timer [simp]: "sameCount a (b\<lparr>timer := t\<rparr>) = sameCount a b"
  by (simp add: sameCount_def)

lemma tickSystem_stage:
  "stage (fst (tickSystem h k sys)) = stage (Some sys) \<or>
   stage (fst (tickSystem h k sys)) = Suc (stage (Some sys))"
proof (cases "state sys")
  case ROCKET
  then show ?thesis
    using tickRocket_cases [of h k "sys\<lparr>timer := timer sys + dt\<rparr>"]
    by (auto simp: tickSystem_def stage_def)
next
  case EXPLODING
  then show ?thesis
    using tickExploding_cases [of k "sys\<lparr>timer := timer sys + dt\<rparr>"]
    by (auto simp: tickSystem_def stage_def)
next
  case WEAVING
  then show ?thesis
    using tickWeaving_cases [of h k "sys\<lparr>timer := timer sys + dt\<rparr>"]
    by (auto simp: tickSystem_def stage_def)
next
  case FADING
  then show ?thesis
    using tickFading_cases [of h k "sys\<lparr>timer := timer sys + dt\<rparr>"]
    by (auto simp: tickSystem_def stage_def)
qed

lemma tickSystem_sameCount:
  "fst (tickSystem h k sys) = Some sys' \<Longrightarrow> sameCount sys' sys"
  using tickRocket_cases [of h k "sys\<lparr>timer := timer sys + dt\<rparr>"]
    tickExploding_cases [of k "sys\<lparr>timer := timer sys + dt\<rparr>"]
    tickWeaving_cases [of h k "sys\<lparr>timer := timer sys + dt\<rparr>"]
    tickFading_cases [of h k "sys\<lparr>timer := timer sys + dt\<rparr>"]
  by (cases "state sys") (auto simp: tickSystem_def)

lemma lifecycle_hd: "lifecycle h ks r = r # tl (lifecycle h ks r)"
  by (cases ks) simp_all

lemma inOrder_lifecycle: "inOrder (map stage (lifecycle h ks r))"
proof (induction ks arbitrary: r)
  case Nil
  show ?case by simp
next
  case (Cons k ks)
  let ?r' = "case r of None \<Rightarrow> None | Some sys \<Rightarrow> fst (tickSystem h k sys)"
  have step: "stage ?r' = stage r \<or> stage ?r' = Suc (stage r)"
    using tickSystem_stage by (cases r) auto
  have "lifecycle h ks ?r' = ?r' # tl (lifecycle h ks ?r')"
    by (rule lifecycle_hd)
  then show ?case
    using Cons.IH [of ?r'] step
    by (metis (no_types, lifting) inOrder.simps(1) lifecycle.simps(2) list.simps(9))
qed

lemma tickAll_outcomes:
  "\<exists>rs. list_all2 (\<lambda>r sys. \<exists>k'. r = fst (tickSystem h k' sys)) rs syss \<and>
        fst (tickAll h k syss) = List.map_filter id rs"
proof (induction syss)
  case Nil
  show ?case by simp
next
  case (Cons sys rest)
  then obtain rs where rs: "list_all2 (\<lambda>r sys. \<exists>k'. r = fst (tickSystem h k' sys)) rs rest"
    "fst (tickAll h k rest) = List.map_filter id rs" by blast
  let ?r = "fst (tickSystem h (snd (tickAll h k rest)) sys)"
  have "list_all2 (\<lambda>r sys. \<exists>k'. r = fst (tickSystem h k' sys)) (?r # rs) (sys # rest)"
    using rs(1) by auto
  moreover have "fst (tickAll h k (sys # rest)) = List.map_filter id (?r # rs)"
    using rs(2) by (auto split: prod.splits option.splits)
  ultimately show ?case by blast
qed

lemma length_concat_triples:
  "(\<And>x. length (f x) = 3) \<Longrightarrow> length (concat (map f xs)) = 3 * length xs"
  by (induction xs) simp_all

lemma buildSystem_hasCount: "hasCount (length targets) (Some (buildSystem h targets tX tY p k))"
  by (simp add: hasCount_def buildSystem_def Let_def length_concat_triples split: prod.splits)

lemma hasCount_lifecycle:
  "hasCount n r \<Longrightarrow> list_all (hasCount n) (lifecycle h ks r)"
proof (induction ks arbitrary: r)
  case Nil
  then show ?case by simp
next
  case (Cons k ks)
  have "hasCount n (case r of None \<Rightarrow> None | Some sys \<Rightarrow> fst (tickSystem h k sys))"
  proof (cases r)
    case None
    then show ?thesis by (simp add: hasCount_def)
  next
    case (Some sys)
    show ?thesis
    proof (cases "fst (tickSystem h k sys)")
      case None
      then show ?thesis using Some by (simp add: hasCount_def)
    next
      case (Some sys')
      then show ?thesis
        using tickSystem_sameCount [OF Some] \<open>r = Some sys\<close> Cons.prems
        by (simp add: hasCount_def sameCount_def)
    qed
  qed
  then show ?case using Cons by simp
qed

subsection \<open>The rasterizer and its cache\<close>

lemma scanPixel_rng:
  "snd acc = k0 + length (fst acc) \<Longrightarrow>
   snd (scanPixel h scale bmp y x acc) = k0 + length (fst (scanPixel h scale bmp y x acc))"
  by (cases acc) (simp add: scanPixel_def)

lemma fold_scanPixel_rng:
  "snd acc = k0 + length (fst acc) \<Longrightarrow>
   snd (fold (scanPixel h scale bmp y) xs acc) =
     k0 + length (fst (fold (scanPixel h scale bmp y) xs acc))"
  by (induction xs arbitrary: acc) (simp_all add: scanPixel_rng)

lemma fold_rows_rng:
  "snd acc = k0 + length (fst acc) \<Longrightarrow>
   snd (fold (\<lambda>y. fold (scanPixel h scale bmp y) xs) ys acc) =
     k0 + length (fst (fold (\<lambda>y. fold (scanPixel h scale bmp y) xs) ys acc))"
  by (induction ys arbitrary: acc) (simp_all add: fold_scanPixel_rng)

lemma scanPixels_rng:
  "snd (scanPixels h scale bmp k0) = k0 + length (fst (scanPixels h scale bmp k0))"
  unfolding scanPixels_def by (rule fold_rows_rng) simp


lemma getPoints_hit:
  "textPointsCache s (cacheKeyOf text st) = Some cached \<Longrightarrow>
   getPointsFromTextCanvas h text scale st s = (cached, s)"
  by (simp add: getPointsFromTextCanvas_def)

lemma getPoints_miss:
  "textPointsCache s (cacheKeyOf text st) = None \<Longrightarrow>
   getPointsFromTextCanvas h text scale st s =
     (if st = Some (utf16 ''HEART'')
      then (heartPoints, s\<lparr>textPointsCache := (textPointsCache s)(cacheKeyOf text st \<mapsto> heartPoints)\<rparr>)
      else (case canvas h text of
              None \<Rightarrow> ([], s)
            | Some bmp \<Rightarrow>
                (fst (scanPixels h scale bmp (rng s)),
                 s\<lparr>textPointsCache :=
                     (textPointsCache s)(cacheKeyOf text st \<mapsto> fst (scanPixels h scale bmp (rng s))),
                   rng := rng s + length (fst (scanPixels h scale bmp (rng s)))\<rparr>)))"
  by (simp add: getPointsFromTextCanvas_def case_prod_beta scanPixels_rng split: option.splits)

lemma getPoints_frame:
  "snd (getPointsFromTextCanvas h text scale st s) =
     s\<lparr>textPointsCache := textPointsCache (snd (getPointsFromTextCanvas h text scale st s)),
       rng := rng (snd (getPointsFromTextCanvas h text scale st s))\<rparr>"
proof (cases "textPointsCache s (cacheKeyOf text st)")
  case (Some cached)
  then show ?thesis by (simp add: getPoints_hit)
next
  case None
  then show ?thesis by (simp add: getPoints_miss split: option.splits)
qed

lemma getPoints_empty:
  assumes "fst (getPointsFromTextCanvas h text scale st s) = []"
  shows "snd (getPointsFromTextCanvas h text scale st s) = s \<or>
         snd (getPointsFromTextCanvas h text scale st s) =
           s\<lparr>textPointsCache := (textPointsCache s)(cacheKeyOf text st \<mapsto> [])\<rparr>"
proof (cases "textPointsCache s (cacheKeyOf text st)")
  case (Some cached)
  then show ?thesis by (simp add: getPoints_hit)
next
  case None
  have hp: "heartPoints \<noteq> []" by (simp add: heartPoints_def)
  show ?thesis
    using assms None hp
    by (auto simp: getPoints_miss split: if_splits option.splits)
qed

lemma spawn_unfold:
  "spawnRocketFirework h text scale tX tY st s =
     (let r = getPointsFromTextCanvas h text scale st s
      in if fst r = [] then Inr (snd r)
         else if camera (snd r) = None
         then Inl (TypeError, (snd r)\<lparr>rng := rng (snd r) + 4 * length (fst r)\<rparr>)
         else Inr ((snd r)\<lparr>systems := systems (snd r) @
                      [buildSystem h (fst r) tX tY (currentPaletteIndex (snd r)) (rng (snd r))],
                    rng := rng (snd r) + 4 * length (fst r) + 1\<rparr>))"
  by (simp add: spawnRocketFirework_def Let_def case_prod_beta)

lemma spawn_after:
  "stateAfter (spawnRocketFirework h text scale tX tY st s) =
     (let r = getPointsFromTextCanvas h text scale st s
      in if fst r = [] then snd r
         else if camera (snd r) = None
         then (snd r)\<lparr>rng := rng (snd r) + 4 * length (fst r)\<rparr>
         else (snd r)\<lparr>systems := systems (snd r) @
                 [buildSystem h (fst r) tX tY (currentPaletteIndex (snd r)) (rng (snd r))],
               rng := rng (snd r) + 4 * length (fst r) + 1\<rparr>)"
  by (simp add: spawn_unfold stateAfter_def Let_def)

subsection \<open>What a spawn can change\<close>

lemma onlySpawned_refl [simp]: "onlySpawned s s"
  by (simp add: onlySpawned_def)

lemma onlySpawned_fields:
  assumes "onlySpawned s s'"
  shows "camera s' = camera s" "currentPaletteIndex s' = currentPaletteIndex s"
    "isPaused s' = isPaused s" "mode s' = mode s" "lastTriggerTime s' = lastTriggerTime s"
    "loops s' = loops s" "timeouts s' = timeouts s" "isHandDetected s' = isHandDetected s"
    "handGesture s' = handGesture s" "mouse s' = mouse s" "cursor s' = cursor s"
    "nebula s' = nebula s" "currentAction s' = currentAction s"
proof -
  let ?t = "s\<lparr>textPointsCache := textPointsCache s', systems := systems s', rng := rng s'\<rparr>"
  have eq: "s' = ?t" using assms by (simp add: onlySpawned_def)
  have "camera ?t = camera s" by simp
  then show "camera s' = camera s" using eq by metis
  have "currentPaletteIndex ?t = currentPaletteIndex s" by simp
  then show "currentPaletteIndex s' = currentPaletteIndex s" using eq by metis
  have "isPaused ?t = isPaused s" by simp
  then show "isPaused s' = isPaused s" using eq by metis
  have "mode ?t = mode s" by simp
  then show "mode s' = mode s" using eq by metis
  have "lastTriggerTime ?t = lastTriggerTime s" by simp
  then show "lastTriggerTime s' = lastTriggerTime s" using eq by metis
  have "loops ?t = loops s" by simp
  then show "loops s' = loops s" using eq by metis
  have "timeouts ?t = timeouts s" by simp
  then show "timeouts s' = timeouts s" using eq by metis
  have "isHandDetected ?t = isHandDetected s" by simp
  then show "isHandDetected s' = isHandDetected s" using eq by metis
  have "handGesture ?t = handGesture s" by simp
  then show "handGesture s' = handGesture s" using eq by metis
  have "mouse ?t = mouse s" by simp
  then show "mouse s' = mouse s" using eq by metis
  have "cursor ?t = cursor s" by simp
  then show "cursor s' = cursor s" using eq by metis
  have "nebula ?t = nebula s" by simp
  then show "nebula s' = nebula s" using eq by metis
  have "currentAction ?t = currentAction s" by simp
  then show "currentAction s' = currentAction s" using eq by metis
qed

lemma getPoints_onlySpawned:
  "onlySpawned s (snd (getPointsFromTextCanvas h text scale st s))"
proof -
  let ?s1 = "snd (getPointsFromTextCanvas h text scale st s)"
  let ?t = "s\<lparr>textPointsCache := textPointsCache ?s1, rng := rng ?s1\<rparr>"
  have eq: "?s1 = ?t" by (rule getPoints_frame)
  have "systems ?t = systems s" by simp
  then have sy: "systems ?s1 = systems s" using eq by metis
  have "?t = s\<lparr>textPointsCache := textPointsCache ?s1, systems := systems s, rng := rng ?s1\<rparr>"
    by simp
  then show ?thesis unfolding onlySpawned_def using eq sy by metis
qed

lemma getPoints_systems [simp]:
  "systems (snd (getPointsFromTextCanvas h text scale st s)) = systems s"
proof -
  let ?s1 = "snd (getPointsFromTextCanvas h text scale st s)"
  let ?t = "s\<lparr>textPointsCache := textPointsCache ?s1, rng := rng ?s1\<rparr>"
  have eq: "?s1 = ?t" by (rule getPoints_frame)
  have "systems ?t = systems s" by simp
  then show ?thesis using eq by metis
qed

lemma onlySpawned_update:
  "onlySpawned s s1 \<Longrightarrow> onlySpawned s (s1\<lparr>systems := ss, rng := k\<rparr>)"
proof -
  assume a: "onlySpawned s s1"
  let ?t = "s\<lparr>textPointsCache := textPointsCache s1, systems := systems s1, rng := rng s1\<rparr>"
  have eq: "s1 = ?t" using a by (simp add: onlySpawned_def)
  have "?t\<lparr>systems := ss, rng := k\<rparr> =
        s\<lparr>textPointsCache := textPointsCache (?t\<lparr>systems := ss, rng := k\<rparr>),
          systems := systems (?t\<lparr>systems := ss, rng := k\<rparr>),
          rng := rng (?t\<lparr>systems := ss, rng := k\<rparr>)\<rparr>"
    by simp
  then show ?thesis unfolding onlySpawned_def using eq by metis
qed

lemma getPoints_camera [simp]:
  "camera (snd (getPointsFromTextCanvas h text scale st s)) = camera s"
  by (rule onlySpawned_fields(1) [OF getPoints_onlySpawned])

lemma onlySpawned_update_rng:
  "onlySpawned s s1 \<Longrightarrow> onlySpawned s (s1\<lparr>rng := k\<rparr>)"
  using onlySpawned_update [where ss = "systems s1" and s = s and ?s1.0 = s1 and k = k] by simp

lemma spawn_onlySpawned:
  "onlySpawned s (stateAfter (spawnRocketFirework h text scale tX tY st s))"
  by (simp add: spawn_after Let_def getPoints_onlySpawned onlySpawned_update
      onlySpawned_update_rng)

text \<open>On an initialised service a spawn returns; without a scene it throws unless the shape is empty.\<close>

lemma spawn_returns:
  "camera s \<noteq> None \<Longrightarrow> \<exists>s'. spawnRocketFirework h text scale tX tY st s = Inr s'"
  by (auto simp: spawn_unfold Let_def)

lemma spawn_throws:
  "camera s = None \<Longrightarrow> fst (getPointsFromTextCanvas h text scale st s) \<noteq> [] \<Longrightarrow>
   \<exists>s'. spawnRocketFirework h text scale tX tY st s = Inl (TypeError, s') \<and>
        systems s' = systems s"
  by (simp add: spawn_unfold Let_def)

lemma onlySpawned_trans: "onlySpawned a b \<Longrightarrow> onlySpawned b c \<Longrightarrow> onlySpawned a c"
proof -
  assume ab: "onlySpawned a b" and bc: "onlySpawned b c"
  let ?b = "a\<lparr>textPointsCache := textPointsCache b, systems := systems b, rng := rng b\<rparr>"
  have "c = b\<lparr>textPointsCache := textPointsCache c, systems := systems c, rng := rng c\<rparr>"
    using bc by (simp add: onlySpawned_def)
  moreover have "b = ?b" using ab by (simp add: onlySpawned_def)
  ultimately have "c = ?b\<lparr>textPointsCache := textPointsCache c, systems := systems c, rng := rng c\<rparr>"
    by metis
  then show ?thesis by (simp add: onlySpawned_def)
qed

lemma spawnSpecialShape_onlySpawned: "onlySpawned s (stateAfter (spawnSpecialShape h kind s))"
  by (simp add: spawnSpecialShape_def spawn_onlySpawned)

lemma spawnSpecialShape_returns:
  "camera s \<noteq> None \<Longrightarrow> \<exists>s'. spawnSpecialShape h kind s = Inr s'"
  by (simp add: spawnSpecialShape_def spawn_returns)

lemma onlySpawned_rng: "onlySpawned s (s\<lparr>rng := k\<rparr>)"
  by (simp add: onlySpawned_def)

lemma spawnRandomFirework_onlySpawned: "onlySpawned s (stateAfter (spawnRandomFirework h s))"
  unfolding spawnRandomFirework_def Let_def
  by (rule onlySpawned_trans [OF onlySpawned_rng spawn_onlySpawned])

lemma loopSpawn_fst:
  "fst (loopSpawn h s task) =
     stateAfter (spawnRocketFirework h (textSequence ! index task)
       (if length (textSequence ! index task) > 2 then 0.25 else 0.35) 0 0 None s)"
  by (simp add: loopSpawn_def Let_def stateAfter_def split: sum.splits prod.splits)

lemma updateHand_unfold:
  "updateHand h now x y g present s =
     (if camera s = None then s
      else
        let s1 = s\<lparr>isHandDetected := present, handGesture := g,
                   mouse := ((x * 2) - 1, - (y * 2) + 1)\<rparr>
        in if \<not> present then s1\<lparr>currentAction := labelNoSignal\<rparr>
           else if g = V_SIGN then
             (if now - lastTriggerTime s1 > 1500
              then (stateAfter (spawnSpecialShape h HEART s1))
                     \<lparr>lastTriggerTime := now, currentAction := labelLove\<rparr>
              else s1)
           else if g = OK_SIGN then
             (if now - lastTriggerTime s1 > 3000
              then (triggerFinale now s1)\<lparr>lastTriggerTime := now, currentAction := labelFinale\<rparr>
              else s1)
           else if g = PINCH \<or> g = OPEN_PALM then s1
           else s1\<lparr>currentAction := labelReady\<rparr>)"
proof (cases "camera s")
  case None
  then show ?thesis by (simp add: updateHand_def)
next
  case (Some z)
  let ?s1 = "s\<lparr>isHandDetected := present, handGesture := g, mouse := ((x * 2) - 1, - (y * 2) + 1)\<rparr>"
  have "camera ?s1 \<noteq> None" using Some by simp
  then obtain s2 where "spawnSpecialShape h HEART ?s1 = Inr s2"
    using spawnSpecialShape_returns by blast
  then show ?thesis using Some by (auto simp: updateHand_def stateAfter_def Let_def)
qed

subsection \<open>Cache reuse, particle count, empty shapes\<close>

lemma scanPixel_blank:
  "data bmp ((y * width bmp + x) * 4 + 3) \<le> 128 \<Longrightarrow> scanPixel h scale bmp y x acc = acc"
  by (cases acc) (simp add: scanPixel_def)

lemma fold_cols_blank:
  "(\<forall>x\<in>set xs. data bmp ((y * width bmp + x) * 4 + 3) \<le> 128) \<Longrightarrow>
   fold (scanPixel h scale bmp y) xs acc = acc"
  by (induction xs) (simp_all add: scanPixel_blank)

lemma fold_rows_blank:
  "(\<forall>y\<in>set ys. \<forall>x\<in>set xs. data bmp ((y * width bmp + x) * 4 + 3) \<le> 128) \<Longrightarrow>
   fold (\<lambda>y. fold (scanPixel h scale bmp y) xs) ys acc = acc"
  by (induction ys) (simp_all add: fold_cols_blank)

lemma scanPixels_blankBitmap: "scanPixels h scale blankBitmap k = ([], k)"
  unfolding scanPixels_def by (rule fold_rows_blank) (simp add: blankBitmap_def)

lemma scanPixels_dotBitmap:
  "scanPixels h scale dotBitmap k =
     ([\<lparr> vx = - (1 / 2) * scale, vy = 75 * scale, vz = mathRandom h k - 1 / 2 \<rparr>], k + 1)"
proof -
  have rows: "[0..<150] = 0 # [1..<150]" by (simp add: upt_conv_Cons)
  have cols: "[0..<width dotBitmap] = [0]" by (simp add: dotBitmap_def)
  have rest: "fold (\<lambda>y. fold (scanPixel h scale dotBitmap y) [0]) [1..<150] acc = acc" for acc
    by (rule fold_rows_blank) (simp add: dotBitmap_def)
  have row0: "scanPixel h scale dotBitmap 0 0 ([], k) =
      ([\<lparr> vx = - (1 / 2) * scale, vy = 75 * scale, vz = mathRandom h k - 1 / 2 \<rparr>], k + 1)"
    by (simp add: scanPixel_def dotBitmap_def)
  show ?thesis
    unfolding scanPixels_def rows cols by (simp only: fold_simps comp_apply id_apply rest row0)
qed

lemma utf16_simps [simp]:
  "textA \<noteq> textSpace" "textSpace \<noteq> textA" "textA \<noteq> []" "textSpace \<noteq> []"
  "length textA = 1"
  by (simp_all add: textA_def textSpace_def utf16_def)

lemma canvas_demoHost [simp]:
  "canvas demoHost textA = Some dotBitmap" "canvas demoHost textSpace = Some blankBitmap"
  "mathRandom demoHost n = 1 / 2"
  by (simp_all add: demoHost_def textA_def textSpace_def utf16_def)

lemma newEngine_simps [simp]:
  "textPointsCache newEngine = Map.empty" "systems newEngine = []" "rng newEngine = 0"
  "currentPaletteIndex newEngine = 1" "camera newEngine = None"
  by (simp_all add: newEngine_def)

lemma firstRequest_eq:
  "firstRequest =
     ([\<lparr> vx = - (1 / 2), vy = 75, vz = 0 \<rparr>],
      newEngine\<lparr>textPointsCache := [textA \<mapsto> [\<lparr> vx = - (1 / 2), vy = 75, vz = 0 \<rparr>]],
                rng := 1\<rparr>)"
  by (simp add: firstRequest_def getPoints_miss cacheKeyOf_def utf16_def scanPixels_dotBitmap)

text \<open>
  C2 (as amended). The cache key is the shape name when one is given and the text
  otherwise; the scale is not part of it. A second request for the same text and shape
  kind, at the same or at any other scale, returns the point cloud of the first request,
  point for point, and leaves the service as the first request left it.
\<close>

theorem cache_reuse_same_key:
  "getPointsFromTextCanvas h text scale' st (snd (getPointsFromTextCanvas h text scale st s)) =
   getPointsFromTextCanvas h text scale st s"
proof (cases "textPointsCache s (cacheKeyOf text st)")
  case (Some cached)
  then show ?thesis by (simp add: getPoints_hit)
next
  case None
  show ?thesis
  proof (cases "st = Some (utf16 ''HEART'')")
    case True
    then show ?thesis using None by (simp add: getPoints_miss getPoints_hit)
  next
    case False
    show ?thesis
    proof (cases "canvas h text")
      case None
      then show ?thesis
        using \<open>textPointsCache s (cacheKeyOf text st) = None\<close> False
        by (simp add: getPoints_miss)
    next
      case (Some bmp)
      then show ?thesis
        using \<open>textPointsCache s (cacheKeyOf text st) = None\<close> False
        by (simp add: getPoints_miss getPoints_hit)
    qed
  qed
qed

theorem cache_scale_counterexample:
  "fst firstRequest = [\<lparr> vx = - (1 / 2), vy = 75, vz = 0 \<rparr>] \<and>
   fst (getPointsFromTextCanvas demoHost textA 2 None (snd firstRequest)) =
     [\<lparr> vx = - (1 / 2), vy = 75, vz = 0 \<rparr>] \<and>
   textPointsCache (snd (getPointsFromTextCanvas demoHost textA 2 None (snd firstRequest))) =
     textPointsCache (snd firstRequest) \<and>
   fst (getPointsFromTextCanvas demoHost textA 2 None newEngine) =
     [\<lparr> vx = - 1, vy = 150, vz = 0 \<rparr>]"
  by (simp add: firstRequest_eq getPoints_hit getPoints_miss cacheKeyOf_def utf16_def
      scanPixels_dotBitmap)

text \<open>
  C8. When the target shape resolved by a spawn has no points, the spawn creates no
  system and raises no error: it returns, with the registry unchanged, and so is the rest
  of the service, except that the empty point cloud may have been stored in the shape
  cache under the request's key. This holds before \<open>init\<close> as well, since the test of the
  count comes before the scene is used.
\<close>

theorem spawn_empty_shape_noop:
  assumes "fst (getPointsFromTextCanvas h text scale st s) = []"
  shows "systems (stateAfter (spawnRocketFirework h text scale tX tY st s)) = systems s \<and>
         (spawnRocketFirework h text scale tX tY st s = Inr s \<or>
          spawnRocketFirework h text scale tX tY st s =
            Inr (s\<lparr>textPointsCache := (textPointsCache s)(cacheKeyOf text st \<mapsto> [])\<rparr>))"
  using assms getPoints_empty [OF assms] by (auto simp: spawn_unfold stateAfter_def Let_def)

theorem spawn_empty_shape_noop_witness:
  "fst (getPointsFromTextCanvas demoHost textSpace (1 / 4) None newEngine) = [] \<and>
   systems (stateAfter (spawnRocketFirework demoHost textSpace (1 / 4) 3 7 None newEngine)) = [] \<and>
   spawnRocketFirework demoHost textSpace (1 / 4) 3 7 None newEngine =
     Inr (newEngine\<lparr>textPointsCache := [textSpace \<mapsto> []]\<rparr>)"
proof -
  have a: "fst (getPointsFromTextCanvas demoHost textSpace (1 / 4) None newEngine) = []"
    by (simp add: getPoints_miss cacheKeyOf_def scanPixels_blankBitmap)
  have b: "spawnRocketFirework demoHost textSpace (1 / 4) 3 7 None newEngine =
      Inr (newEngine\<lparr>textPointsCache := [textSpace \<mapsto> []]\<rparr>)"
    by (simp add: spawn_unfold getPoints_miss cacheKeyOf_def scanPixels_blankBitmap)
  show ?thesis
    using spawn_empty_shape_noop [OF a, of 3 7] a b by simp
qed

subsection \<open>Gesture triggers and their cooldown\<close>

lemma heartPoints_length [simp]: "length heartPoints = 3000"
  by (simp add: heartPoints_def)

lemma heartPoints_nonempty [simp]: "heartPoints \<noteq> []"
  using heartPoints_length by fastforce

lemma heart_key [simp]:
  "cacheKeyOf text (Some (utf16 ''HEART'')) = utf16 ''HEART''"
  "shapeName HEART = utf16 ''HEART''"
  by (simp_all add: cacheKeyOf_def shapeName_def utf16_def)



lemma updateHand_absent_eq:
  "updateHand h now x y g False s =
     (if camera s = None then s
      else s\<lparr>isHandDetected := False, handGesture := g, mouse := ((x * 2) - 1, - (y * 2) + 1),
             currentAction := labelNoSignal\<rparr>)"
  by (simp add: updateHand_def)






lemma readyEngine_simps [simp]:
  "camera readyEngine = Some 50" "lastTriggerTime readyEngine = 0"
  "textPointsCache readyEngine = Map.empty" "systems readyEngine = []"
  "mouse readyEngine = (0, 0)" "isPaused readyEngine = False"
  by (simp_all add: readyEngine_def newEngine_def)


text \<open>
  C9 (as amended). A call of \<open>updateHand\<close> with \<open>present = false\<close> on an initialised
  service stores its arguments (no hand detected, the gesture, and the pointer mapped to
  \<open>(2x - 1, 1 - 2y)\<close>) and sets the status label to NO SIGNAL. It does nothing else: no
  trigger fires, the cooldown timestamp, the registry, the pending finale, the camera and
  the palette are as before. Before \<open>init\<close> the call changes nothing at all.
\<close>

theorem updateHand_absent:
  "updateHand h now x y g False s =
     (if camera s = None then s
      else s\<lparr>isHandDetected := False, handGesture := g, mouse := ((x * 2) - 1, - (y * 2) + 1),
             currentAction := labelNoSignal\<rparr>) \<and>
   systems (updateHand h now x y g False s) = systems s \<and>
   lastTriggerTime (updateHand h now x y g False s) = lastTriggerTime s \<and>
   timeouts (updateHand h now x y g False s) = timeouts s \<and>
   camera (updateHand h now x y g False s) = camera s \<and>
   currentPaletteIndex (updateHand h now x y g False s) = currentPaletteIndex s"
  by (simp add: updateHand_def)

theorem updateHand_absent_counterexample:
  "mouse readyEngine = (0, 0) \<and>
   mouse (updateHand demoHost 5000 1 1 IDLE False readyEngine) = (1, - 1) \<and>
   updateHand demoHost 5000 1 1 IDLE False readyEngine \<noteq>
     readyEngine\<lparr>currentAction := labelNoSignal\<rparr>"
proof -
  have m: "mouse (updateHand demoHost 5000 1 1 IDLE False readyEngine) = (1, - 1)"
    by (simp add: updateHand_def)
  have "mouse (readyEngine\<lparr>currentAction := labelNoSignal\<rparr>) = (0, 0)" by simp
  then have "updateHand demoHost 5000 1 1 IDLE False readyEngine \<noteq>
     readyEngine\<lparr>currentAction := labelNoSignal\<rparr>"
    using m by (metis old.prod.inject zero_neq_one)
  then show ?thesis using m by simp
qed

subsection \<open>Pause\<close>

lemma animate_paused:
  assumes "isPaused s" and "camera s = Some z"
  shows "animate h s =
     Inr (updateCursor h (applyZoom (s\<lparr>nebula := map_option (\<lambda>r. r + 0.0002) (nebula s)\<rparr>) z)
            (case camera (applyZoom (s\<lparr>nebula := map_option (\<lambda>r. r + 0.0002) (nebula s)\<rparr>) z) of
               Some c \<Rightarrow> c | None \<Rightarrow> z))"
  using assms by (simp add: animate_def Let_def updateCursor_def applyZoom_def)

lemma loopWake_paused:
  assumes "isPaused s"
    and "phase task = PauseWait \<or> (phase task = DisplayWait \<and> elapsed task < 4000)"
  shows "loopWake h s task = (s, task)"
  using assms by (auto simp: loopWake_def loopPauseCheck_def)

text \<open>
  C5. While the pause flag is set, a frame leaves the registry as it is, every buffer,
  timer, opacity and state included, and makes no draw. The frame itself still runs: the
  nebula turns, a detected PINCH or OPEN_PALM moves the camera by one clamped step, and
  the cursor is shown or hidden with the hand and turned red. A text loop woken while
  paused, in its pause wait or in its display wait, changes neither the service nor its
  own elapsed time.
\<close>

theorem pause_freezes_particles:
  assumes "isPaused s" and "camera s = Some z"
  shows "\<exists>s'. animate h s = Inr s' \<and>
           systems s' = systems s \<and> rng s' = rng s \<and>
           nebula s' = map_option (\<lambda>r. r + 0.0002) (nebula s) \<and>
           camera s' =
             Some (if isHandDetected s \<and> handGesture s = PINCH then max 10 (z - zoomSpeed)
                   else if isHandDetected s \<and> handGesture s = OPEN_PALM then min 120 (z + zoomSpeed)
                   else z) \<and>
           map_option cursorVisible (cursor s') = map_option (\<lambda>c. isHandDetected s) (cursor s) \<and>
           (isHandDetected s \<longrightarrow>
              map_option cursorColor (cursor s') = map_option (\<lambda>c. 0xff0000) (cursor s)) \<and>
           (phase task = PauseWait \<or> (phase task = DisplayWait \<and> elapsed task < 4000) \<longrightarrow>
              loopWake h s task = (s, task))"
  using assms loopWake_paused [OF assms(1), of task h]
  by (simp add: animate_paused updateCursor_def applyZoom_def Let_def option.map_comp comp_def)

theorem pause_freezes_particles_witness:
  "isPaused pausedEngine \<and> camera pausedEngine = Some 50 \<and> isHandDetected pausedEngine \<and>
   phase waitingLoop = DisplayWait \<and> elapsed waitingLoop < 4000 \<and>
   (\<exists>s'. animate demoHost pausedEngine = Inr s' \<and> systems s' = [weavingSystem] \<and>
      camera s' = Some (498 / 10) \<and>
      map_option cursorVisible (cursor s') = Some True \<and>
      map_option cursorColor (cursor s') = Some 0xff0000) \<and>
   loopWake demoHost pausedEngine waitingLoop = (pausedEngine, waitingLoop)"
proof -
  have a: "isPaused pausedEngine" by (simp add: pausedEngine_def)
  have b: "camera pausedEngine = Some 50" by (simp add: pausedEngine_def)
  have c: "isHandDetected pausedEngine" "handGesture pausedEngine = PINCH"
    "systems pausedEngine = [weavingSystem]"
    "cursor pausedEngine = Some \<lparr> cursorPos = \<lparr> vx = 0, vy = 0, vz = 0 \<rparr>,
                                cursorVisible = False, cursorColor = 0x00ffff \<rparr>"
    by (simp_all add: pausedEngine_def readyEngine_def)
  have d: "phase waitingLoop = DisplayWait" "elapsed waitingLoop < 4000"
    by (simp_all add: waitingLoop_def)
  show ?thesis
    using pause_freezes_particles [OF a b, of demoHost waitingLoop] a b c d
    by (auto simp: zoomSpeed_def)
qed

subsection \<open>Invariants of every run: camera distance\<close>

lemma animate_result:
  assumes "camera s = Some z"
  shows "\<exists>s'. animate h s = Inr s' \<and> camera s' = camera (applyZoom s z) \<and>
           currentPaletteIndex s' = currentPaletteIndex s"
  using assms
  by (simp add: animate_def Let_def case_prod_beta updateCursor_def applyZoom_def)

lemma applyZoom_camera:
  "camera s = Some z \<Longrightarrow>
   camera (applyZoom s z) =
     Some (if isHandDetected s \<and> handGesture s = PINCH then max 10 (z - zoomSpeed)
           else if isHandDetected s \<and> handGesture s = OPEN_PALM then min 120 (z + zoomSpeed)
           else z)"
  by (simp add: applyZoom_def)

lemma animate_zoomInRange:
  assumes "camera s = Some z" "10 \<le> z" "z \<le> 120"
  shows "zoomInRange (orElse (animate h s) s')"
proof -
  obtain t where t: "animate h s = Inr t" "camera t = camera (applyZoom s z)"
    using animate_result [OF assms(1)] by blast
  show ?thesis
    using t assms by (simp add: orElse_def zoomInRange_def applyZoom_camera zoomSpeed_def)
qed

lemma animate_palette:
  "currentPaletteIndex (orElse (animate h s) s) = currentPaletteIndex s"
proof (cases "camera s")
  case None
  then show ?thesis by (simp add: animate_def orElse_def)
next
  case (Some z)
  then show ?thesis using animate_result [OF Some, of h] by (auto simp: orElse_def)
qed

lemma loop_onlySpawned:
  "onlySpawned s (fst (loopSpawn h s task))"
  "onlySpawned s (fst (loopPauseCheck h s task))"
  "onlySpawned s (fst (loopTop h s task))"
  by (simp_all add: loopSpawn_fst loopPauseCheck_def loopTop_def Let_def spawn_onlySpawned)

lemma loopWake_onlySpawned: "onlySpawned s (fst (loopWake h s task))"
  by (cases "phase task") (simp_all add: loopWake_def Let_def loop_onlySpawned)

lemma startShow_keeps:
  "camera (startShow h s) = camera s" "currentPaletteIndex (startShow h s) = currentPaletteIndex s"
  using onlySpawned_fields(1,2)
    [OF loop_onlySpawned(3)
       [of "s\<lparr>currentAction := labelShowStarted, mode := SHOW\<rparr>" h
           "\<lparr> phase = Stopped, index = 0, elapsed = 0 \<rparr>"]]
  by (simp_all add: startShow_def Let_def case_prod_beta)

lemma wakeLoop_keeps:
  "camera (wakeLoop h i s) = camera s" "currentPaletteIndex (wakeLoop h i s) = currentPaletteIndex s"
  using onlySpawned_fields(1,2) [OF loopWake_onlySpawned [of s h "loops s ! i"]]
  by (simp_all add: wakeLoop_def Let_def case_prod_beta)

lemma spawnSpecialShape_keeps:
  "camera (stateAfter (spawnSpecialShape h kind s)) = camera s"
  "currentPaletteIndex (stateAfter (spawnSpecialShape h kind s)) = currentPaletteIndex s"
  using onlySpawned_fields(1,2) [OF spawnSpecialShape_onlySpawned] by simp_all

lemma fireTimeout_keeps:
  "camera (fireTimeout h s) = camera s" "currentPaletteIndex (fireTimeout h s) = currentPaletteIndex s"
proof -
  have "camera (stateAfter (spawnRandomFirework h (s\<lparr>timeouts := r\<rparr>))) = camera s" for r
    using onlySpawned_fields(1) [OF spawnRandomFirework_onlySpawned [of "s\<lparr>timeouts := r\<rparr>" h]]
    by simp
  then show "camera (fireTimeout h s) = camera s"
    by (simp add: fireTimeout_def split: list.splits)
  have "currentPaletteIndex (stateAfter (spawnRandomFirework h (s\<lparr>timeouts := r\<rparr>))) = currentPaletteIndex s" for r
    using onlySpawned_fields(2) [OF spawnRandomFirework_onlySpawned [of "s\<lparr>timeouts := r\<rparr>" h]]
    by simp
  then show "currentPaletteIndex (fireTimeout h s) = currentPaletteIndex s"
    by (simp add: fireTimeout_def split: list.splits)
qed

lemma updateHand_keeps:
  "camera (updateHand h now x y g present s) = camera s"
  "currentPaletteIndex (updateHand h now x y g present s) = currentPaletteIndex s"
  by (simp_all add: updateHand_unfold Let_def spawnSpecialShape_keeps triggerFinale_def)

lemma init_zoomInRange: "zoomInRange (orElse (init h s) s)"
  unfolding init_def by (rule animate_zoomInRange [where z = 50]) simp_all

lemma init_palette: "currentPaletteIndex (orElse (init h s) s) = currentPaletteIndex s"
proof -
  let ?s0 = "s\<lparr>camera := Some 50, nebula := Some 0,
                cursor := Some \<lparr> cursorPos = \<lparr> vx = 0, vy = 0, vz = 0 \<rparr>,
                                 cursorVisible = False, cursorColor = 0x00ffff \<rparr>,
                currentAction := labelReady\<rparr>"
  have c: "camera ?s0 = Some 50" by simp
  show ?thesis
    using animate_result [OF c, of h] by (auto simp: init_def orElse_def)
qed

lemma step_zoomInRange: "zoomInRange s \<Longrightarrow> zoomInRange (step h s op)"
proof (cases op)
  case OpInit
  then show ?thesis by (simp add: init_zoomInRange)
next
  case OpFrame
  assume z: "zoomInRange s"
  show ?thesis
  proof (cases "camera s")
    case None
    then show ?thesis using OpFrame z by simp
  next
    case (Some c)
    then show ?thesis
      using OpFrame z animate_zoomInRange [OF Some, of h s] by (simp add: zoomInRange_def)
  qed
qed (simp_all add: zoomInRange_def startShow_keeps updateHand_keeps spawnSpecialShape_keeps
      wakeLoop_keeps fireTimeout_keeps)

lemma step_palette: "currentPaletteIndex (step h s op) = currentPaletteIndex s"
  by (cases op)
    (simp_all add: init_palette animate_palette startShow_keeps updateHand_keeps
      spawnSpecialShape_keeps wakeLoop_keeps fireTimeout_keeps)

lemma run_snoc: "run h (ops @ [op]) s = step h (run h ops s) op"
  by (simp add: run_def)

lemma run_zoomInRange: "zoomInRange s \<Longrightarrow> zoomInRange (run h ops s)"
  by (induction ops rule: rev_induct) (simp_all add: run_def step_zoomInRange)

lemma run_palette: "currentPaletteIndex (run h ops s) = currentPaletteIndex s"
  by (induction ops rule: rev_induct) (simp_all add: run_def step_palette)

text \<open>
  C6. In every state the service reaches from its construction, by any sequence of
  calls, frames, loop wake-ups and timeouts, the camera distance lies in [10, 120] once
  the camera exists. A frame with a detected PINCH sets the distance \<open>z\<close> to
  \<open>max 10 (z - 0.2)\<close>, and a frame with a detected OPEN_PALM sets it to
  \<open>min 120 (z + 0.2)\<close>.
\<close>

theorem zoom_stays_in_range:
  "zoomInRange (run h ops newEngine) \<and>
   (camera s = Some z \<and> isHandDetected s \<and> handGesture s = PINCH \<longrightarrow>
      (\<exists>s'. animate h s = Inr s' \<and> camera s' = Some (max 10 (z - 0.2)))) \<and>
   (camera s = Some z \<and> isHandDetected s \<and> handGesture s = OPEN_PALM \<longrightarrow>
      (\<exists>s'. animate h s = Inr s' \<and> camera s' = Some (min 120 (z + 0.2))))"
proof -
  have "zoomInRange newEngine" by (simp add: zoomInRange_def)
  then have "zoomInRange (run h ops newEngine)" by (rule run_zoomInRange)
  moreover have "camera s = Some z \<Longrightarrow>
      \<exists>s'. animate h s = Inr s' \<and> camera s' = camera (applyZoom s z)"
    using animate_result by blast
  ultimately show ?thesis by (auto simp: applyZoom_camera zoomSpeed_def)
qed

subsection \<open>Invariants of every run: palette\<close>

theorem zoom_stays_in_range_witness:
  "camera pausedEngine = Some 50 \<and> isHandDetected pausedEngine \<and>
   handGesture pausedEngine = PINCH \<and>
   (\<exists>s'. animate demoHost pausedEngine = Inr s' \<and> camera s' = Some (498 / 10)) \<and>
   camera palmEngine = Some 120 \<and> isHandDetected palmEngine \<and>
   handGesture palmEngine = OPEN_PALM \<and>
   (\<exists>s'. animate demoHost palmEngine = Inr s' \<and> camera s' = Some 120) \<and>
   zoomInRange (run demoHost demoOps newEngine)"
proof -
  have a: "camera pausedEngine = Some 50" "isHandDetected pausedEngine"
    "handGesture pausedEngine = PINCH"
    by (simp_all add: pausedEngine_def)
  have b: "camera palmEngine = Some 120" "isHandDetected palmEngine"
    "handGesture palmEngine = OPEN_PALM"
    by (simp_all add: palmEngine_def)
  show ?thesis
    using zoom_stays_in_range [of demoHost demoOps pausedEngine 50]
      zoom_stays_in_range [of demoHost demoOps palmEngine 120] a b
    by simp
qed

lemma nth_concat_triples:
  assumes "\<And>x. length (f x) = 3"
  shows "j < length xs \<Longrightarrow> c < 3 \<Longrightarrow> concat (map f xs) ! (j * 3 + c) = f (xs ! j) ! c"
proof (induction xs arbitrary: j)
  case Nil
  then show ?case by simp
next
  case (Cons x xs)
  show ?case
  proof (cases j)
    case 0
    then show ?thesis using Cons.prems assms by (simp add: nth_append)
  next
    case (Suc j')
    then have "j * 3 + c = 3 + (j' * 3 + c)" by simp
    then show ?thesis
      using Cons.IH [of j'] Cons.prems Suc assms by (simp add: nth_append)
  qed
qed

lemma palette_index_in_range:
  assumes "0 \<le> r" "r < 1" "0 < n"
  shows "nat \<lfloor>r * real n\<rfloor> < n"
proof -
  have "r * real n < real n" using assms by simp
  then have "\<lfloor>r * real n\<rfloor> < int n" by (simp add: floor_less_iff)
  then show ?thesis using assms by linarith
qed

lemma buildSystem_colors:
  "colors (buildSystem h targets tX tY p k) =
     concat (map (\<lambda>i. let (r, g, b) = setHex h (snd (PALETTES ! p) !
                           nat \<lfloor>mathRandom h (k + 4 * i + 3) * real (length (snd (PALETTES ! p)))\<rfloor>)
                       in [r, g, b]) [0..<length targets])"
  by (simp add: buildSystem_def Let_def)

lemma buildSystem_drawnFrom:
  assumes "\<forall>n. 0 \<le> mathRandom h n \<and> mathRandom h n < 1" and "snd (PALETTES ! p) \<noteq> []"
  shows "drawnFrom h (snd (PALETTES ! p)) (buildSystem h targets tX tY p k)"
proof -
  define pal where "pal = snd (PALETTES ! p)"
  define idx where "idx = (\<lambda>i. nat \<lfloor>mathRandom h (k + 4 * i + 3) * real (length pal)\<rfloor>)"
  define f where "f = (\<lambda>i. let (r, g, b) = setHex h (pal ! idx i) in [r, g, b])"
  define cs where "cs = concat (map f [0..<length targets])"
  have len: "length (f x) = 3" for x by (simp add: f_def case_prod_beta)
  have cols: "colors (buildSystem h targets tX tY p k) = cs"
    unfolding cs_def f_def idx_def pal_def by (rule buildSystem_colors)
  have n: "length cs div 3 = length targets"
    unfolding cs_def using length_concat_triples [of f "[0..<length targets]"] len by simp
  have "\<exists>c \<in> set pal. (cs ! (j * 3), cs ! (j * 3 + 1), cs ! (j * 3 + 2)) = setHex h c"
    if j: "j < length targets" for j
  proof -
    have in_range: "idx j < length pal"
      unfolding idx_def using assms by (intro palette_index_in_range) (auto simp: pal_def)
    have nth: "cs ! (j * 3 + c) = f j ! c" if "c < 3" for c
      unfolding cs_def using nth_concat_triples [of f j "[0..<length targets]" c] len j that
      by simp
    have n0: "cs ! (j * 3) = f j ! 0" using nth [of 0] by simp
    have n1: "cs ! (j * 3 + 1) = f j ! 1" using nth [of 1] by simp
    have n2: "cs ! (j * 3 + 2) = f j ! 2" using nth [of 2] by simp
    have "(f j ! 0, f j ! 1, f j ! 2) = setHex h (pal ! idx j)"
      by (simp add: f_def case_prod_beta)
    then have "(cs ! (j * 3), cs ! (j * 3 + 1), cs ! (j * 3 + 2)) = setHex h (pal ! idx j)"
      by (simp only: n0 n1 n2)
    then show ?thesis using in_range nth_mem by blast
  qed
  then show ?thesis unfolding drawnFrom_def cols n pal_def [symmetric] by blast
qed

lemma palette_one [simp]:
  "snd (PALETTES ! 1) = orangeColors" "fst (PALETTES ! 1) = orangeName"
  "snd (PALETTES ! Suc 0) = orangeColors" "fst (PALETTES ! Suc 0) = orangeName"
  by (simp_all add: PALETTES_def orangeColors_def orangeName_def)

lemma cycleLoop_differs:
  assumes "cycleLoop h current nextIndex k = Some r"
  shows "fst r \<noteq> current"
proof (rule cycleLoop.raw_induct
    [where P = "\<lambda>h current nextIndex k r. fst r \<noteq> current", OF _ assms])
  fix loop h current nextIndex k r
  assume IH: "\<And>h' c n k' y. loop h' c n k' = Some y \<Longrightarrow> fst y \<noteq> c"
    and body: "(if nextIndex = current
                then loop h current (nat \<lfloor>mathRandom h k * real (length PALETTES)\<rfloor>) (k + 1)
                else Some (nextIndex, k)) = Some r"
  show "fst r \<noteq> current"
  proof (cases "nextIndex = current")
    case True
    then show ?thesis using IH body by simp
  next
    case False
    then show ?thesis using body by auto
  qed
qed

lemma cyclePalette_changes:
  "cyclePalette h s = Some s' \<Longrightarrow> currentPaletteIndex s' \<noteq> currentPaletteIndex s"
  using cycleLoop_differs by (fastforce simp: cyclePalette_def)

lemma cyclePalette_demo:
  "cyclePalette demoHost newEngine = Some (newEngine\<lparr>currentPaletteIndex := 3, rng := 1\<rparr>)"
proof -
  have len: "length PALETTES = 7" by (simp add: PALETTES_def)
  have "cycleLoop demoHost 1 3 1 = Some (3, 1)"
    by (subst cycleLoop.simps) simp
  moreover have "nat \<lfloor>(1 / 2 :: real) * 7\<rfloor> = 3" by linarith
  ultimately have "cycleLoop demoHost 1 1 0 = Some (3, 1)"
    by (subst cycleLoop.simps) (simp add: len)
  then show ?thesis by (simp add: cyclePalette_def)
qed

lemma spawnsFrom_same: "systems s' = systems s \<Longrightarrow> spawnsFrom h palette s s'"
  by (simp add: spawnsFrom_def)

lemma spawn_spawnsFrom:
  assumes "\<forall>n. 0 \<le> mathRandom h n \<and> mathRandom h n < 1" and "currentPaletteIndex s = 1"
  shows "spawnsFrom h orangeColors s (stateAfter (spawnRocketFirework h text scale tX tY st s))"
proof -
  let ?r = "getPointsFromTextCanvas h text scale st s"
  have p1: "currentPaletteIndex (snd ?r) = 1"
    using onlySpawned_fields(2) [OF getPoints_onlySpawned [of s h "text" scale st]] assms(2)
    by simp
  have "drawnFrom h (snd (PALETTES ! 1)) (buildSystem h (fst ?r) tX tY 1 (rng (snd ?r)))"
    by (rule buildSystem_drawnFrom [OF assms(1)]) (simp add: orangeColors_def)
  then have "drawnFrom h orangeColors (buildSystem h (fst ?r) tX tY 1 (rng (snd ?r)))"
    by simp
  then show ?thesis
    using p1 by (simp add: spawnsFrom_def spawn_after Let_def)
qed

lemma spawnsFrom_systems_cong:
  "systems a' = systems a \<Longrightarrow> systems b' = systems b \<Longrightarrow>
   spawnsFrom h palette a b \<Longrightarrow> spawnsFrom h palette a' b'"
  by (simp add: spawnsFrom_def)

lemma loop_spawnsFrom:
  assumes "\<forall>n. 0 \<le> mathRandom h n \<and> mathRandom h n < 1" and "currentPaletteIndex s = 1"
  shows "spawnsFrom h orangeColors s (fst (loopSpawn h s task))"
    and "spawnsFrom h orangeColors s (fst (loopPauseCheck h s task))"
    and "spawnsFrom h orangeColors s (fst (loopTop h s task))"
    and "spawnsFrom h orangeColors s (fst (loopWake h s task))"
proof -
  show a: "spawnsFrom h orangeColors s (fst (loopSpawn h s task))" for task
    using spawn_spawnsFrom [OF assms] by (simp add: loopSpawn_fst)
  show b: "spawnsFrom h orangeColors s (fst (loopPauseCheck h s task))" for task
    using a by (simp add: loopPauseCheck_def spawnsFrom_same)
  show c: "spawnsFrom h orangeColors s (fst (loopTop h s task))" for task
    using b by (simp add: loopTop_def spawnsFrom_same)
  show "spawnsFrom h orangeColors s (fst (loopWake h s task))"
    using b c by (cases "phase task") (simp_all add: loopWake_def Let_def spawnsFrom_same)
qed

lemma spawnRandomFirework_spawnsFrom:
  assumes "\<forall>n. 0 \<le> mathRandom h n \<and> mathRandom h n < 1" and "currentPaletteIndex s = 1"
  shows "spawnsFrom h orangeColors s (stateAfter (spawnRandomFirework h s))"
proof -
  have "currentPaletteIndex (s\<lparr>rng := rng s + 3\<rparr>) = 1" using assms(2) by simp
  from spawn_spawnsFrom [OF assms(1) this]
  show ?thesis
    unfolding spawnRandomFirework_def Let_def
    by (rule spawnsFrom_systems_cong [rotated 2]) simp_all
qed

lemma step_spawnsFrom:
  assumes "\<forall>n. 0 \<le> mathRandom h n \<and> mathRandom h n < 1" and "currentPaletteIndex s = 1"
    and "op \<noteq> OpFrame" and "op \<noteq> OpInit"
  shows "spawnsFrom h orangeColors s (step h s op)"
proof (cases op)
  case OpStartShow
  let ?s1 = "s\<lparr>currentAction := labelShowStarted, mode := SHOW\<rparr>"
  have "currentPaletteIndex ?s1 = 1" using assms(2) by simp
  from loop_spawnsFrom(3) [OF assms(1) this]
  have "spawnsFrom h orangeColors ?s1
      (fst (loopTop h ?s1 \<lparr> phase = Stopped, index = 0, elapsed = 0 \<rparr>))" .
  then show ?thesis
    unfolding OpStartShow step.simps startShow_def Let_def case_prod_beta
    by (rule spawnsFrom_systems_cong [rotated 2]) simp_all
next
  case (OpUpdateHand now x y g present)
  let ?s1 = "s\<lparr>isHandDetected := present, handGesture := g, mouse := ((x * 2) - 1, - (y * 2) + 1)\<rparr>"
  have "currentPaletteIndex ?s1 = 1" using assms(2) by simp
  from spawn_spawnsFrom [OF assms(1) this]
  have sp: "spawnsFrom h orangeColors ?s1 (stateAfter (spawnSpecialShape h HEART ?s1))"
    by (simp add: spawnSpecialShape_def)
  have "spawnsFrom h orangeColors s
      ((stateAfter (spawnSpecialShape h HEART ?s1))\<lparr>lastTriggerTime := now, currentAction := labelLove\<rparr>)"
    by (rule spawnsFrom_systems_cong [OF _ _ sp]) simp_all
  then show ?thesis
    unfolding OpUpdateHand step.simps updateHand_unfold Let_def
    by (auto simp: spawnsFrom_same triggerFinale_def)
next
  case (OpSpawnSpecialShape kind)
  then show ?thesis
    using spawn_spawnsFrom [OF assms(1,2)] by (simp add: spawnSpecialShape_def)
next
  case (OpSetPaused b)
  then show ?thesis by (simp add: spawnsFrom_same)
next
  case (OpLoopWake i)
  have "spawnsFrom h orangeColors s (fst (loopWake h s (loops s ! i)))"
    by (rule loop_spawnsFrom(4) [OF assms(1,2)])
  then have "spawnsFrom h orangeColors s
      ((fst (loopWake h s (loops s ! i)))
         \<lparr>loops := (loops (fst (loopWake h s (loops s ! i))))[i := snd (loopWake h s (loops s ! i))]\<rparr>)"
    by (rule spawnsFrom_systems_cong [rotated 2]) simp_all
  then show ?thesis
    unfolding OpLoopWake step.simps wakeLoop_def Let_def case_prod_beta
    by (simp add: spawnsFrom_same)
next
  case OpTimeout
  show ?thesis
  proof (cases "timeouts s")
    case Nil
    then show ?thesis using OpTimeout by (simp add: fireTimeout_def spawnsFrom_same)
  next
    case (Cons t rest)
    have "currentPaletteIndex (s\<lparr>timeouts := rest\<rparr>) = 1" using assms(2) by simp
    from spawnRandomFirework_spawnsFrom [OF assms(1) this]
    have "spawnsFrom h orangeColors s (stateAfter (spawnRandomFirework h (s\<lparr>timeouts := rest\<rparr>)))"
      by (rule spawnsFrom_systems_cong [rotated 2]) simp_all
    then show ?thesis using OpTimeout Cons by (simp add: fireTimeout_def)
  qed
qed (use assms in simp_all)

lemma tickAll_length: "length (fst (tickAll h k syss)) \<le> length syss"
  by (induction syss) (auto split: prod.splits option.splits)

lemma animate_systems_length:
  "length (systems (orElse (animate h s) s')) \<le> max (length (systems s)) (length (systems s'))"
proof (cases "camera s")
  case None
  then show ?thesis by (simp add: animate_def orElse_def)
next
  case (Some z)
  then show ?thesis
    using tickAll_length [of h "rng s" "systems s"]
    by (auto simp: animate_def orElse_def Let_def case_prod_beta updateCursor_def applyZoom_def)
qed

lemma frame_adds_no_system:
  assumes "op = OpFrame \<or> op = OpInit"
  shows "length (systems (step h s op)) \<le> length (systems s)"
proof -
  let ?s0 = "s\<lparr>camera := Some 50, nebula := Some 0,
                cursor := Some \<lparr> cursorPos = \<lparr> vx = 0, vy = 0, vz = 0 \<rparr>,
                                 cursorVisible = False, cursorColor = 0x00ffff \<rparr>,
                currentAction := labelReady\<rparr>"
  have "length (systems (orElse (animate h ?s0) s)) \<le> length (systems s)"
    using animate_systems_length [of h ?s0 s] by simp
  moreover have "length (systems (orElse (animate h s) s)) \<le> length (systems s)"
    using animate_systems_length [of h s s] by simp
  ultimately show ?thesis using assms by (auto simp: init_def)
qed

text \<open>
  C10. In every state the service reaches from its construction the palette index is 1
  and the theme label is that of the Orange palette: no operation of the service writes
  the index, and \<open>cyclePalette\<close>, which would, is called by none of them. A frame or
  \<open>init\<close> adds no system to the registry, and the systems that any other operation adds
  in such a state have each particle's color drawn from the Orange palette.
\<close>

theorem palette_is_constant:
  assumes "\<forall>n. 0 \<le> mathRandom h n \<and> mathRandom h n < 1"
  shows "currentPaletteIndex (run h ops newEngine) = 1 \<and>
         currentTheme (run h ops newEngine) = orangeName \<and>
         (if op = OpFrame \<or> op = OpInit
          then length (systems (step h (run h ops newEngine) op)) \<le>
                 length (systems (run h ops newEngine))
          else spawnsFrom h orangeColors (run h ops newEngine) (step h (run h ops newEngine) op))"
proof -
  have p: "currentPaletteIndex (run h ops newEngine) = 1" by (simp add: run_palette)
  show ?thesis
  proof (cases "op = OpFrame \<or> op = OpInit")
    case True
    then show ?thesis
      using p frame_adds_no_system [OF True] by (simp add: currentTheme_def)
  next
    case False
    then show ?thesis
      using p step_spawnsFrom [OF assms p] by (simp add: currentTheme_def)
  qed
qed

theorem palette_is_constant_witness:
  "(\<forall>n. 0 \<le> mathRandom demoHost n \<and> mathRandom demoHost n < 1) \<and>
   currentPaletteIndex (run demoHost demoOps newEngine) = 1 \<and>
   currentTheme (run demoHost demoOps newEngine) = orangeName \<and>
   spawnsFrom demoHost orangeColors (run demoHost demoOps newEngine)
     (step demoHost (run demoHost demoOps newEngine) (OpSpawnSpecialShape HEART)) \<and>
   length (systems (step demoHost (run demoHost demoOps newEngine) OpFrame)) \<le>
     length (systems (run demoHost demoOps newEngine))"
proof -
  have a: "\<forall>n. 0 \<le> mathRandom demoHost n \<and> mathRandom demoHost n < 1" by simp
  show ?thesis
    using palette_is_constant [OF a, of demoOps "OpSpawnSpecialShape HEART"]
      palette_is_constant [OF a, of demoOps OpFrame] a
    by simp
qed

subsection \<open>Invariants of every run: the heart can always be spawned\<close>

lemma getPoints_heartCache:
  assumes "heartCache s" and "cacheKeyOf text st \<noteq> utf16 ''HEART'' \<or> st = Some (utf16 ''HEART'')"
  shows "heartCache (snd (getPointsFromTextCanvas h text scale st s))"
proof (cases "textPointsCache s (cacheKeyOf text st)")
  case (Some cached)
  then show ?thesis using assms(1) by (simp add: getPoints_hit)
next
  case None
  show ?thesis
  proof (cases "st = Some (utf16 ''HEART'')")
    case True
    then show ?thesis using None by (simp add: getPoints_miss heartCache_def)
  next
    case False
    then have "cacheKeyOf text st \<noteq> utf16 ''HEART''" using assms(2) by simp
    then show ?thesis
      using None False assms(1)
      by (auto simp: getPoints_miss heartCache_def split: option.splits)
  qed
qed

lemma spawn_heartCache:
  assumes "heartCache s" and "cacheKeyOf text st \<noteq> utf16 ''HEART'' \<or> st = Some (utf16 ''HEART'')"
  shows "heartCache (stateAfter (spawnRocketFirework h text scale tX tY st s))"
  using getPoints_heartCache [OF assms, of h scale]
  by (simp add: spawn_after Let_def heartCache_def)

lemma script_texts_not_heart:
  "i < length textSequence \<Longrightarrow> textSequence ! i \<noteq> utf16 ''HEART''"
  "j < length randomTexts \<Longrightarrow> randomTexts ! j \<noteq> utf16 ''HEART''"
proof -
  have "\<forall>t \<in> set textSequence. t \<noteq> utf16 ''HEART''"
    by (simp add: textSequence_def utf16_def)
  then show "i < length textSequence \<Longrightarrow> textSequence ! i \<noteq> utf16 ''HEART''"
    using nth_mem by blast
  have "\<forall>t \<in> set randomTexts. t \<noteq> utf16 ''HEART''"
    by (simp add: randomTexts_def utf16_def)
  then show "j < length randomTexts \<Longrightarrow> randomTexts ! j \<noteq> utf16 ''HEART''"
    using nth_mem by blast
qed

lemma loop_index:
  "index (snd (loopSpawn h s task)) = index task"
  "index (snd (loopPauseCheck h s task)) = index task"
  "index (snd (loopTop h s task)) = index task"
proof -
  show a: "index (snd (loopSpawn h s task)) = index task"
    by (simp add: loopSpawn_def Let_def split: sum.splits prod.splits)
  show b: "index (snd (loopPauseCheck h s task)) = index task"
    using a by (simp add: loopPauseCheck_def)
  show "index (snd (loopTop h s task)) = index task"
    using b by (simp add: loopTop_def)
qed

lemma length_textSequence: "length textSequence = 4"
  by (simp add: textSequence_def)

lemma loopWake_index:
  "index task < length textSequence \<Longrightarrow> index (snd (loopWake h s task)) < length textSequence"
  by (cases "phase task") (simp_all add: loopWake_def Let_def loop_index length_textSequence)

lemma loop_heartCache:
  assumes "heartCache s" and "index task < length textSequence"
  shows "heartCache (fst (loopSpawn h s task))"
    and "heartCache (fst (loopPauseCheck h s task))"
    and "heartCache (fst (loopTop h s task))"
proof -
  have key: "cacheKeyOf (textSequence ! index task) None \<noteq> utf16 ''HEART''"
    using script_texts_not_heart(1) [OF assms(2)] by (simp add: cacheKeyOf_def)
  show a: "heartCache (fst (loopSpawn h s task))"
    using spawn_heartCache [OF assms(1), of "textSequence ! index task" None] key
    by (simp add: loopSpawn_fst)
  show b: "heartCache (fst (loopPauseCheck h s task))"
    using a assms(1) by (simp add: loopPauseCheck_def)
  show "heartCache (fst (loopTop h s task))"
    using b assms(1) by (simp add: loopTop_def)
qed

lemma loopWake_heartCache:
  assumes "heartCache s" and "index task < length textSequence"
  shows "heartCache (fst (loopWake h s task))"
proof (cases "phase task")
  case PauseWait
  then show ?thesis using loop_heartCache(2) [OF assms] by (simp add: loopWake_def)
next
  case DisplayWait
  let ?e = "if \<not> isPaused s then elapsed task + 100 else elapsed task"
  let ?t = "task\<lparr>elapsed := ?e, index := (index task + 1) mod length textSequence\<rparr>"
  have "index ?t < length textSequence" by (simp add: length_textSequence)
  from loop_heartCache(3) [OF assms(1) this]
  show ?thesis using DisplayWait assms(1) by (simp add: loopWake_def Let_def)
next
  case Stopped
  then show ?thesis using assms(1) by (simp add: loopWake_def)
next
  case Rejected
  then show ?thesis using assms(1) by (simp add: loopWake_def)
qed

lemma heartCache_cong:
  "textPointsCache s' = textPointsCache s \<Longrightarrow> heartCache s \<Longrightarrow> heartCache s'"
  by (simp add: heartCache_def)

lemma spawnSpecialShape_heartCache:
  "heartCache s \<Longrightarrow> heartCache (stateAfter (spawnSpecialShape h kind s))"
proof (cases kind)
  case HEART
  assume "heartCache s"
  then show ?thesis
    using HEART spawn_heartCache [of s "utf16 ''SHAPE_'' @ utf16 ''HEART''" "Some (utf16 ''HEART'')"]
    by (simp add: spawnSpecialShape_def)
next
  case STAR
  assume a: "heartCache s"
  have "cacheKeyOf (utf16 ''SHAPE_'' @ utf16 ''STAR'') (Some (utf16 ''STAR'')) \<noteq> utf16 ''HEART''"
    by (simp add: cacheKeyOf_def utf16_def)
  then show ?thesis
    using STAR spawn_heartCache [OF a, of "utf16 ''SHAPE_'' @ utf16 ''STAR''" "Some (utf16 ''STAR'')"]
    by (simp add: spawnSpecialShape_def shapeName_def)
qed

lemma spawnRandomFirework_heartCache:
  assumes "\<forall>n. 0 \<le> mathRandom h n \<and> mathRandom h n < 1" and "heartCache s"
  shows "heartCache (stateAfter (spawnRandomFirework h s))"
proof -
  let ?j = "nat \<lfloor>mathRandom h (rng s) * real (length randomTexts)\<rfloor>"
  have "?j < length randomTexts"
    using assms(1) by (intro palette_index_in_range) (auto simp: randomTexts_def)
  then have key: "cacheKeyOf (randomTexts ! ?j) None \<noteq> utf16 ''HEART''"
    using script_texts_not_heart(2) by (simp add: cacheKeyOf_def)
  have "heartCache (s\<lparr>rng := rng s + 3\<rparr>)" using assms(2) by (simp add: heartCache_def)
  from spawn_heartCache [OF this, of "randomTexts ! ?j" None] key
  show ?thesis by (simp add: spawnRandomFirework_def Let_def)
qed

lemma animate_keeps_script:
  "textPointsCache (orElse (animate h s) s) = textPointsCache s \<and>
   loops (orElse (animate h s) s) = loops s"
  by (cases "camera s")
    (simp_all add: animate_def orElse_def Let_def case_prod_beta updateCursor_def applyZoom_def)

lemma init_keeps_script:
  "textPointsCache (orElse (init h s) s) = textPointsCache s \<and>
   loops (orElse (init h s) s) = loops s"
  by (simp add: init_def animate_def orElse_def Let_def case_prod_beta updateCursor_def
      applyZoom_def)

lemma step_heartReady:
  assumes "\<forall>n. 0 \<le> mathRandom h n \<and> mathRandom h n < 1" and "heartReady s"
  shows "heartReady (step h s op)"
proof (cases op)
  case OpInit
  then show ?thesis
    using assms(2) init_keeps_script [of h s] by (simp add: heartReady_def heartCache_def)
next
  case OpStartShow
  let ?s1 = "s\<lparr>currentAction := labelShowStarted, mode := SHOW\<rparr>"
  let ?t0 = "\<lparr> phase = Stopped, index = 0, elapsed = 0 \<rparr>"
  have hc: "heartCache ?s1" using assms(2) by (simp add: heartReady_def heartCache_def)
  have i0: "index ?t0 < length textSequence" by (simp add: length_textSequence)
  have a: "heartCache (fst (loopTop h ?s1 ?t0))" by (rule loop_heartCache(3) [OF hc i0])
  have b: "loops (fst (loopTop h ?s1 ?t0)) = loops s"
    using onlySpawned_fields(6) [OF loop_onlySpawned(3) [of ?s1 h ?t0]] by simp
  have c: "index (snd (loopTop h ?s1 ?t0)) < length textSequence"
    using i0 by (simp add: loop_index)
  show ?thesis
    using a b c assms(2) OpStartShow
    by (simp add: startShow_def Let_def case_prod_beta heartReady_def heartCache_def)
next
  case (OpUpdateHand now x y g present)
  let ?s1 = "s\<lparr>isHandDetected := present, handGesture := g, mouse := ((x * 2) - 1, - (y * 2) + 1)\<rparr>"
  have hc: "heartCache ?s1" using assms(2) by (simp add: heartReady_def heartCache_def)
  have a: "heartCache (stateAfter (spawnSpecialShape h HEART ?s1))"
    by (rule spawnSpecialShape_heartCache [OF hc])
  have b: "loops (stateAfter (spawnSpecialShape h HEART ?s1)) = loops s"
    using onlySpawned_fields(6) [OF spawnSpecialShape_onlySpawned [of ?s1 h HEART]] by simp
  show ?thesis
    using a b assms(2) OpUpdateHand
    by (auto simp: updateHand_unfold Let_def heartReady_def heartCache_def triggerFinale_def)
next
  case (OpSpawnSpecialShape kind)
  have "loops (stateAfter (spawnSpecialShape h kind s)) = loops s"
    by (rule onlySpawned_fields(6) [OF spawnSpecialShape_onlySpawned])
  then show ?thesis
    using OpSpawnSpecialShape assms(2) spawnSpecialShape_heartCache [of s h kind]
    by (simp add: heartReady_def)
next
  case (OpSetPaused b)
  then show ?thesis using assms(2) by (simp add: heartReady_def heartCache_def)
next
  case OpFrame
  then show ?thesis
    using assms(2) animate_keeps_script [of h s] by (simp add: heartReady_def heartCache_def)
next
  case (OpLoopWake i)
  show ?thesis
  proof (cases "i < length (loops s)")
    case False
    then show ?thesis using OpLoopWake assms(2) by (simp add: wakeLoop_def)
  next
    case True
    let ?task = "loops s ! i"
    have idx: "index ?task < length textSequence"
      using assms(2) True by (simp add: heartReady_def list_all_length)
    have hc: "heartCache s" using assms(2) by (simp add: heartReady_def)
    have a: "heartCache (fst (loopWake h s ?task))" by (rule loopWake_heartCache [OF hc idx])
    have b: "loops (fst (loopWake h s ?task)) = loops s"
      by (rule onlySpawned_fields(6) [OF loopWake_onlySpawned])
    have c: "index (snd (loopWake h s ?task)) < length textSequence"
      by (rule loopWake_index [OF idx])
    have "list_all (\<lambda>task. index task < length textSequence)
        ((loops s)[i := snd (loopWake h s ?task)])"
      using assms(2) c True
      by (auto simp: heartReady_def list_all_length nth_list_update)
    then show ?thesis
      using a b True OpLoopWake
      by (simp add: wakeLoop_def Let_def case_prod_beta heartReady_def heartCache_def)
  qed
next
  case OpTimeout
  show ?thesis
  proof (cases "timeouts s")
    case Nil
    then show ?thesis using OpTimeout assms(2) by (simp add: fireTimeout_def)
  next
    case (Cons t rest)
    have hc: "heartCache (s\<lparr>timeouts := rest\<rparr>)"
      using assms(2) by (simp add: heartReady_def heartCache_def)
    have a: "heartCache (stateAfter (spawnRandomFirework h (s\<lparr>timeouts := rest\<rparr>)))"
      by (rule spawnRandomFirework_heartCache [OF assms(1) hc])
    have b: "loops (stateAfter (spawnRandomFirework h (s\<lparr>timeouts := rest\<rparr>))) = loops s"
      using onlySpawned_fields(6) [OF spawnRandomFirework_onlySpawned [of "s\<lparr>timeouts := rest\<rparr>" h]]
      by simp
    show ?thesis
      using a b assms(2) OpTimeout Cons by (simp add: fireTimeout_def heartReady_def)
  qed
qed

lemma run_heartReady:
  assumes "\<forall>n. 0 \<le> mathRandom h n \<and> mathRandom h n < 1"
  shows "heartReady (run h ops newEngine)"
proof (induction ops rule: rev_induct)
  case Nil
  show ?case by (simp add: run_def heartReady_def heartCache_def newEngine_def)
next
  case (snoc op ops)
  then show ?case using step_heartReady [OF assms] by (simp add: run_def)
qed

text \<open>
  In every state the service reaches, the heart's cache entry is never the empty cloud: the
  condition under which a V_SIGN trigger is sure to spawn holds throughout.
\<close>

lemma run_heart_resolves:
  assumes "\<forall>n. 0 \<le> mathRandom h n \<and> mathRandom h n < 1"
  shows "textPointsCache (run h ops newEngine) (shapeName HEART) \<noteq> Some []"
  using run_heartReady [OF assms, of ops] by (auto simp: heartReady_def heartCache_def)

subsection \<open>Life cycle of a system\<close>

lemma animate_systems:
  "(case animate h s of
      Inl e \<Rightarrow> camera s = None
    | Inr s' \<Rightarrow>
        systems s' = (if isPaused s then systems s else fst (tickAll h (rng s) (systems s))))"
  by (cases "camera s")
    (simp_all add: animate_def Let_def case_prod_beta updateCursor_def applyZoom_def)

lemma ceiling_step: "0 < (x::real) \<Longrightarrow> nat \<lceil>x - 1\<rceil> < nat \<lceil>x\<rceil>"
proof -
  assume "0 < x"
  then have "0 < \<lceil>x\<rceil>" by (simp add: less_ceiling_iff)
  moreover have "\<lceil>x - 1\<rceil> = \<lceil>x\<rceil> - 1" by (rule ceiling_diff_one)
  ultimately show ?thesis by linarith
qed

lemma tickRocket_fields:
  "\<exists>sys'. fst (tickRocket h k sys) = Some sys' \<and>
     rocketVelocity sys' = rocketVelocity sys \<and> targetY sys' = targetY sys \<and>
     vy (rocketPos sys') = vy (rocketPos sys) + vy (rocketVelocity sys) \<and>
     (if vy (rocketPos sys) + vy (rocketVelocity sys) \<ge> orZero (targetY sys)
      then state sys' = EXPLODING \<and> timer sys' = 0
      else state sys' = state sys)"
  by (simp add: tickRocket_def Let_def case_prod_beta addV_def)

lemma tickExploding_fields:
  "\<exists>sys'. fst (tickExploding k sys) = Some sys' \<and>
     rocketVelocity sys' = rocketVelocity sys \<and>
     (if timer sys > 0.6 then state sys' = WEAVING \<and> timer sys' = 0
      else state sys' = state sys \<and> timer sys' = timer sys)"
  by (simp add: tickExploding_def Let_def case_prod_beta)

lemma tickWeaving_fields:
  "\<exists>sys'. fst (tickWeaving h k sys) = Some sys' \<and>
     rocketVelocity sys' = rocketVelocity sys \<and> timer sys' = timer sys \<and>
     matOpacity sys' \<le> 1 \<and>
     (if timer sys > 2.4 then state sys' = FADING else state sys' = state sys)"
  by (simp add: tickWeaving_def Let_def)

lemma tickFading_fields:
  "(if matOpacity sys - 0.02 \<le> 0 then fst (tickFading h k sys) = None
    else \<exists>sys'. fst (tickFading h k sys) = Some sys' \<and>
           rocketVelocity sys' = rocketVelocity sys \<and> state sys' = state sys \<and>
           matOpacity sys' = matOpacity sys - 0.02)"
  by (simp add: tickFading_def Let_def)


lemma tickSystem_progress:
  assumes "0 < vy (rocketVelocity sys)"
  shows "fst (tickSystem h k sys) = None \<or>
         (\<exists>sys'. fst (tickSystem h k sys) = Some sys' \<and> ticksLeft sys' < ticksLeft sys \<and>
                rocketVelocity sys' = rocketVelocity sys)"
proof (cases "state sys")
  case ROCKET
  let ?t = "sys\<lparr>timer := timer sys + dt\<rparr>"
  let ?v = "vy (rocketVelocity sys)"
  let ?T = "orZero (targetY sys)"
  let ?y = "vy (rocketPos sys)"
  obtain sys' where s': "fst (tickRocket h k ?t) = Some sys'"
    "rocketVelocity sys' = rocketVelocity sys" "targetY sys' = targetY sys"
    "vy (rocketPos sys') = ?y + ?v"
    "if ?y + ?v \<ge> ?T then state sys' = EXPLODING \<and> timer sys' = 0 else state sys' = ROCKET"
    using tickRocket_fields [of h k ?t] ROCKET by auto
  have "ticksLeft sys' < ticksLeft sys"
  proof (cases "?y + ?v \<ge> ?T")
    case True
    have "nat \<lceil>(0.6 - 0) / dt\<rceil> = 38" by (simp add: dt_def)
    then show ?thesis using True s'(5) ROCKET by (simp add: ticksLeft_def)
  next
    case False
    then have pos: "0 < (?T - ?y) / ?v" using assms by simp
    have "(?T - (?y + ?v)) / ?v = (?T - ?y) / ?v - 1"
      using assms by (simp add: field_simps)
    then have "nat \<lceil>(?T - (?y + ?v)) / ?v\<rceil> < nat \<lceil>(?T - ?y) / ?v\<rceil>"
      using ceiling_step [OF pos] by simp
    then show ?thesis using False s' ROCKET by (simp add: ticksLeft_def)
  qed
  then show ?thesis using s' ROCKET by (simp add: tickSystem_def)
next
  case EXPLODING
  let ?t = "sys\<lparr>timer := timer sys + dt\<rparr>"
  obtain sys' where s': "fst (tickExploding k ?t) = Some sys'"
    "rocketVelocity sys' = rocketVelocity sys"
    "if timer sys + dt > 0.6 then state sys' = WEAVING \<and> timer sys' = 0
     else state sys' = EXPLODING \<and> timer sys' = timer sys + dt"
    using tickExploding_fields [of k ?t] EXPLODING by auto
  have "ticksLeft sys' < ticksLeft sys"
  proof (cases "timer sys + dt > 0.6")
    case True
    have "nat \<lceil>(2.4 - 0) / dt\<rceil> = 150" by (simp add: dt_def)
    then show ?thesis using True s'(3) EXPLODING by (simp add: ticksLeft_def)
  next
    case False
    then have pos: "0 < (0.6 - timer sys) / dt" by (simp add: dt_def)
    have "(0.6 - (timer sys + dt)) / dt = (0.6 - timer sys) / dt - 1"
      by (simp add: dt_def field_simps)
    then have "nat \<lceil>(0.6 - (timer sys + dt)) / dt\<rceil> < nat \<lceil>(0.6 - timer sys) / dt\<rceil>"
      using ceiling_step [OF pos] by simp
    then show ?thesis using False s' EXPLODING by (simp add: ticksLeft_def)
  qed
  then show ?thesis using s' EXPLODING by (simp add: tickSystem_def)
next
  case WEAVING
  let ?t = "sys\<lparr>timer := timer sys + dt\<rparr>"
  obtain sys' where s': "fst (tickWeaving h k ?t) = Some sys'"
    "rocketVelocity sys' = rocketVelocity sys" "timer sys' = timer sys + dt"
    "matOpacity sys' \<le> 1"
    "if timer sys + dt > 2.4 then state sys' = FADING else state sys' = WEAVING"
    using tickWeaving_fields [of h k ?t] WEAVING by auto
  have "ticksLeft sys' < ticksLeft sys"
  proof (cases "timer sys + dt > 2.4")
    case True
    have "matOpacity sys' / 0.02 \<le> 50" using s'(4) by simp
    then have "\<lceil>matOpacity sys' / 0.02\<rceil> \<le> 50" by (simp add: ceiling_le_iff)
    then have le: "nat \<lceil>matOpacity sys' / 0.02\<rceil> \<le> 50" by linarith
    have a: "ticksLeft sys' = nat \<lceil>matOpacity sys' / 0.02\<rceil>"
      using True s'(5) by (simp add: ticksLeft_def)
    have b: "ticksLeft sys = nat \<lceil>(2.4 - timer sys) / dt\<rceil> + 51"
      using WEAVING by (simp add: ticksLeft_def)
    show ?thesis using le a b by linarith
  next
    case False
    then have pos: "0 < (2.4 - timer sys) / dt" by (simp add: dt_def)
    have "(2.4 - (timer sys + dt)) / dt = (2.4 - timer sys) / dt - 1"
      by (simp add: dt_def field_simps)
    then have "nat \<lceil>(2.4 - (timer sys + dt)) / dt\<rceil> < nat \<lceil>(2.4 - timer sys) / dt\<rceil>"
      using ceiling_step [OF pos] by simp
    then show ?thesis using False s' WEAVING by (simp add: ticksLeft_def)
  qed
  then show ?thesis using s' WEAVING by (simp add: tickSystem_def)
next
  case FADING
  let ?t = "sys\<lparr>timer := timer sys + dt\<rparr>"
  show ?thesis
  proof (cases "matOpacity sys - 0.02 \<le> 0")
    case True
    then show ?thesis
      using tickFading_fields [of ?t h k] FADING by (simp add: tickSystem_def)
  next
    case False
    then obtain sys' where s': "fst (tickFading h k ?t) = Some sys'"
      "rocketVelocity sys' = rocketVelocity sys" "state sys' = FADING"
      "matOpacity sys' = matOpacity sys - 0.02"
      using tickFading_fields [of ?t h k] FADING by auto
    have pos: "0 < matOpacity sys / 0.02" using False by simp
    have "(matOpacity sys - 0.02) / 0.02 = matOpacity sys / 0.02 - 1"
      by (simp add: field_simps)
    then have "nat \<lceil>(matOpacity sys - 0.02) / 0.02\<rceil> < nat \<lceil>matOpacity sys / 0.02\<rceil>"
      using ceiling_step [OF pos] by simp
    then have "ticksLeft sys' < ticksLeft sys" using s' FADING by (simp add: ticksLeft_def)
    then show ?thesis using s' FADING by (simp add: tickSystem_def)
  qed
qed


lemma lifecycle_removed: "last (lifecycle h ks None) = None"
  by (induction ks) (simp_all add: lifecycle_hd [of h _ None, symmetric])

lemma lifecycle_nonempty [simp]: "lifecycle h ks r \<noteq> []"
  by (cases ks) simp_all

lemma lifecycle_ends:
  "0 < vy (rocketVelocity sys) \<Longrightarrow> ticksLeft sys < length ks \<Longrightarrow>
   last (lifecycle h ks (Some sys)) = None"
proof (induction ks arbitrary: sys)
  case Nil
  then show ?case by simp
next
  case (Cons k ks)
  from tickSystem_progress [OF Cons.prems(1), of h k]
  show ?case
  proof
    assume "fst (tickSystem h k sys) = None"
    then show ?thesis by (simp add: lifecycle_removed)
  next
    assume "\<exists>sys'. fst (tickSystem h k sys) = Some sys' \<and> ticksLeft sys' < ticksLeft sys \<and>
                rocketVelocity sys' = rocketVelocity sys"
    then obtain sys' where s': "fst (tickSystem h k sys) = Some sys'"
      "ticksLeft sys' < ticksLeft sys" "rocketVelocity sys' = rocketVelocity sys"
      by blast
    have "last (lifecycle h ks (Some sys')) = None"
      using Cons.IH [of sys'] Cons.prems s' by simp
    then show ?thesis using s'(1) by simp
  qed
qed

lemma inOrder_remdups_adj:
  "inOrder xs \<Longrightarrow> xs \<noteq> [] \<Longrightarrow> remdups_adj xs = [hd xs..<Suc (last xs)]"
proof (induction xs rule: inOrder.induct)
  case (1 a b rest)
  then have IH: "remdups_adj (b # rest) = [b..<Suc (last (b # rest))]" by simp
  from "1.prems"(1) have "b = a \<or> b = Suc a" by simp
  then show ?case
  proof
    assume "b = a"
    then show ?thesis using IH by simp
  next
    assume b: "b = Suc a"
    have "[b..<Suc (last (b # rest))] \<noteq> []" using IH by (metis remdups_adj_Nil_iff list.distinct(1))
    then have lt: "b < Suc (last (b # rest))" using upt_eq_Nil_conv not_le by blast
    then have "[a..<Suc (last (b # rest))] = a # [b..<Suc (last (b # rest))]"
      using b by (simp add: upt_conv_Cons)
    then show ?thesis using IH b by simp
  qed
qed simp_all

lemma stages_of_lifecycle:
  "remdups_adj (map stage (lifecycle h ks r)) = [stage r..<Suc (stage (last (lifecycle h ks r)))]"
proof -
  have "hd (map stage (lifecycle h ks r)) = stage r"
    by (cases ks) simp_all
  moreover have "last (map stage (lifecycle h ks r)) = stage (last (lifecycle h ks r))"
    by (simp add: last_map)
  ultimately show ?thesis
    using inOrder_remdups_adj [OF inOrder_lifecycle, of h ks r] by simp
qed

lemma buildSystem_launch:
  "state (buildSystem h targets tX tY p k) = ROCKET"
  "vy (rocketVelocity (buildSystem h targets tX tY p k)) =
     0.8 + mathRandom h (k + 4 * length targets) * 0.4"
  "ticksLeft (buildSystem h targets tX tY p k) =
     nat \<lceil>(orZero tY + 60) / (0.8 + mathRandom h (k + 4 * length targets) * 0.4)\<rceil> + 241"
  by (simp_all add: buildSystem_def Let_def ticksLeft_def)

lemma lifecycle_complete:
  assumes "0 \<le> mathRandom h (k + 4 * length targets)"
    and "ticksLeft (buildSystem h targets tX tY p k) < length ks"
  shows "remdups_adj (map stage (lifecycle h ks (Some (buildSystem h targets tX tY p k)))) =
           [0, 1, 2, 3, 4]"
proof -
  let ?sys = "buildSystem h targets tX tY p k"
  have "0 < vy (rocketVelocity ?sys)"
    using assms(1) by (simp add: buildSystem_launch(2))
  then have "last (lifecycle h ks (Some ?sys)) = None"
    using assms(2) by (rule lifecycle_ends)
  moreover have "[0..<Suc 4] = [0, 1, 2, 3, 4::nat]" by (simp add: upt_rec)
  ultimately show ?thesis
    using stages_of_lifecycle [of h ks "Some ?sys"]
    by (simp add: stage_def buildSystem_launch(1))
qed

lemma frame_unpaused:
  assumes "camera s \<noteq> None" and "\<not> isPaused s"
  shows "camera (step h s OpFrame) \<noteq> None \<and> \<not> isPaused (step h s OpFrame) \<and>
         systems (step h s OpFrame) = fst (tickAll h (rng s) (systems s))"
proof -
  obtain z where z: "camera s = Some z" using assms(1) by blast
  show ?thesis
    using z assms(2)
    by (simp add: animate_def orElse_def Let_def case_prod_beta updateCursor_def applyZoom_def)
qed

lemma run_frames_Suc:
  "run h (replicate (Suc n) OpFrame) s = run h (replicate n OpFrame) (step h s OpFrame)"
  by (simp add: run_def)

lemma frames_keep_empty:
  "camera s \<noteq> None \<Longrightarrow> \<not> isPaused s \<Longrightarrow> systems s = [] \<Longrightarrow>
   systems (run h (replicate n OpFrame) s) = []"
proof (induction n arbitrary: s)
  case 0
  then show ?case by (simp add: run_def)
next
  case (Suc n)
  have f: "camera (step h s OpFrame) \<noteq> None" "\<not> isPaused (step h s OpFrame)"
    "systems (step h s OpFrame) = []"
    using frame_unpaused [OF Suc.prems(1,2), of h] Suc.prems(3) by simp_all
  show ?case
    unfolding run_frames_Suc by (rule Suc.IH [OF f])
qed

text \<open>
  Frames of the running service tick a lone system of the registry through its life cycle:
  after \<open>n\<close> frames the registry holds what \<open>n\<close> ticks have made of the system.
\<close>

lemma frames_follow_lifecycle:
  "camera s \<noteq> None \<Longrightarrow> \<not> isPaused s \<Longrightarrow> systems s = [sys] \<Longrightarrow>
   \<exists>ks. length ks = n \<and>
        systems (run h (replicate n OpFrame) s) =
          (case last (lifecycle h ks (Some sys)) of None \<Rightarrow> [] | Some sys' \<Rightarrow> [sys'])"
proof (induction n arbitrary: s sys)
  case 0
  then show ?case by (simp add: run_def)
next
  case (Suc n)
  let ?s1 = "step h s OpFrame"
  have f: "camera ?s1 \<noteq> None" "\<not> isPaused ?s1"
    "systems ?s1 = fst (tickAll h (rng s) [sys])"
    using frame_unpaused [OF Suc.prems(1,2), of h] Suc.prems(3) by simp_all
  show ?case
  proof (cases "fst (tickSystem h (rng s) sys)")
    case None
    then have "systems ?s1 = []" using f(3) by (simp add: case_prod_beta)
    then have "systems (run h (replicate (Suc n) OpFrame) s) = []"
      using frames_keep_empty [OF f(1,2)] by (simp only: run_frames_Suc)
    moreover have "last (lifecycle h (rng s # replicate n 0) (Some sys)) = None"
      using None by (simp add: lifecycle_removed)
    ultimately have "length (rng s # replicate n 0) = Suc n \<and>
        systems (run h (replicate (Suc n) OpFrame) s) =
          (case last (lifecycle h (rng s # replicate n 0) (Some sys)) of
             None \<Rightarrow> [] | Some x \<Rightarrow> [x])"
      by simp
    then show ?thesis by blast
  next
    case (Some sys')
    then have "systems ?s1 = [sys']" using f(3) by (simp add: case_prod_beta)
    from Suc.IH [OF f(1,2) this] obtain ks where ks: "length ks = n"
      "systems (run h (replicate n OpFrame) ?s1) =
         (case last (lifecycle h ks (Some sys')) of None \<Rightarrow> [] | Some x \<Rightarrow> [x])"
      by blast
    have "last (lifecycle h (rng s # ks) (Some sys)) = last (lifecycle h ks (Some sys'))"
      using Some by simp
    then have "length (rng s # ks) = Suc n \<and>
        systems (run h (replicate (Suc n) OpFrame) s) =
          (case last (lifecycle h (rng s # ks) (Some sys)) of None \<Rightarrow> [] | Some x \<Rightarrow> [x])"
      unfolding run_frames_Suc using ks by simp
    then show ?thesis by blast
  qed
qed

lemma spawned_system_leaves_registry:
  assumes "0 \<le> mathRandom h (k + 4 * length targets)"
    and "camera s \<noteq> None" and "\<not> isPaused s"
    and "systems s = [buildSystem h targets tX tY p k]"
    and "ticksLeft (buildSystem h targets tX tY p k) < n"
  shows "systems (run h (replicate n OpFrame) s) = []"
proof -
  let ?sys = "buildSystem h targets tX tY p k"
  obtain ks where ks: "length ks = n"
    "systems (run h (replicate n OpFrame) s) =
       (case last (lifecycle h ks (Some ?sys)) of None \<Rightarrow> [] | Some x \<Rightarrow> [x])"
    using frames_follow_lifecycle [OF assms(2,3,4), of n h] by blast
  have "0 < vy (rocketVelocity ?sys)"
    using assms(1) by (simp add: buildSystem_launch(2))
  then have "last (lifecycle h ks (Some ?sys)) = None"
    using assms(5) ks(1) by (intro lifecycle_ends) simp_all
  then show ?thesis using ks(2) by simp
qed

lemma readyEngine_request:
  "getPointsFromTextCanvas demoHost textA 1 None readyEngine =
     (demoTargets, readyEngine\<lparr>textPointsCache := [textA \<mapsto> demoTargets], rng := 1\<rparr>)"
  by (simp add: getPoints_miss cacheKeyOf_def utf16_def scanPixels_dotBitmap demoTargets_def
      readyEngine_def newEngine_def)

lemma readyEngine_spawn:
  "spawnRocketFirework demoHost textA 1 0 0 None readyEngine =
     Inr (readyEngine\<lparr>textPointsCache := [textA \<mapsto> demoTargets], systems := [demoSystem],
                     rng := 6\<rparr>)"
proof -
  have p: "currentPaletteIndex readyEngine = 1"
    by (simp add: readyEngine_def newEngine_def)
  show ?thesis
    using p by (simp add: spawn_unfold readyEngine_request demoSystem_def demoTargets_def)
qed

lemma launchedEngine_simps:
  "camera launchedEngine \<noteq> None" "\<not> isPaused launchedEngine"
  "systems launchedEngine = [demoSystem]"
  by (simp_all add: launchedEngine_def readyEngine_spawn stateAfter_def)

lemma demoSystem_ticksLeft: "ticksLeft demoSystem = 301"
  by (simp add: demoSystem_def buildSystem_launch(3) orZero_def demoTargets_def)

lemma demoTicks_length: "length demoTicks = 400"
  by (simp add: demoTicks_def)

text \<open>
  C1. A system is created in state ROCKET. Count the stages ROCKET = 0, EXPLODING = 1,
  WEAVING = 2, FADING = 3, removed = 4. With \<open>Math.random\<close> never negative, once more
  ticks have run than \<open>ticksLeft\<close> allows the created system, the stages it has gone
  through, repetitions dropped, are exactly 0, 1, 2, 3, 4. For every system and every
  sequence of ticks, long or short, the stages gone through are the consecutive numbers
  from the first stage to the last, and at each tick the stage stays or goes up by exactly
  one: no state is skipped, none is entered twice, and removal happens from FADING only.
  A frame of \<open>animate\<close> either leaves the registry alone (when paused) or replaces each
  system by the outcome of its own tick and drops the removed ones; it fails only when
  there is no camera. So a running service whose registry holds just the created system
  has an empty registry after more frames than \<open>ticksLeft\<close> allows the system.
\<close>

theorem lifecycle_in_order:
  assumes "\<forall>n. 0 \<le> mathRandom h n"
  shows "stage (Some (buildSystem h targets tX tY p k0)) = 0 \<and>
   (ticksLeft (buildSystem h targets tX tY p k0) < length ks \<longrightarrow>
      remdups_adj (map stage (lifecycle h ks (Some (buildSystem h targets tX tY p k0)))) =
        [0, 1, 2, 3, 4]) \<and>
   remdups_adj (map stage (lifecycle h ks (Some sys))) =
     [stage (Some sys)..<Suc (stage (last (lifecycle h ks (Some sys))))] \<and>
   inOrder (map stage (lifecycle h ks (Some sys))) \<and>
   (\<exists>rs. list_all2 (\<lambda>r sys. \<exists>k'. r = fst (tickSystem h k' sys)) rs syss \<and>
         fst (tickAll h k syss) = List.map_filter id rs) \<and>
   (case animate h s of
      Inl e \<Rightarrow> camera s = None
    | Inr s' \<Rightarrow>
        systems s' = (if isPaused s then systems s else fst (tickAll h (rng s) (systems s)))) \<and>
   (camera s0 \<noteq> None \<and> \<not> isPaused s0 \<and> systems s0 = [buildSystem h targets tX tY p k0] \<and>
    ticksLeft (buildSystem h targets tX tY p k0) < n \<longrightarrow>
      systems (run h (replicate n OpFrame) s0) = [])"
proof -
  have r: "0 \<le> mathRandom h (k0 + 4 * length targets)" using assms by simp
  from lifecycle_complete [OF r]
  have "ticksLeft (buildSystem h targets tX tY p k0) < length ks \<longrightarrow>
      remdups_adj (map stage (lifecycle h ks (Some (buildSystem h targets tX tY p k0)))) =
        [0, 1, 2, 3, 4]"
    by blast
  moreover have "camera s0 \<noteq> None \<and> \<not> isPaused s0 \<and>
      systems s0 = [buildSystem h targets tX tY p k0] \<and>
      ticksLeft (buildSystem h targets tX tY p k0) < n \<longrightarrow>
        systems (run h (replicate n OpFrame) s0) = []"
    using spawned_system_leaves_registry [OF r] by blast
  ultimately show ?thesis
    using inOrder_lifecycle tickAll_outcomes animate_systems
      stages_of_lifecycle [of h ks "Some sys"]
    by (simp add: stage_def buildSystem_launch(1))
qed

theorem lifecycle_in_order_witness:
  "(\<forall>n. 0 \<le> mathRandom demoHost n) \<and>
   ticksLeft (buildSystem demoHost demoTargets 0 0 1 1) < length demoTicks \<and>
   stage (Some demoSystem) = 0 \<and>
   remdups_adj (map stage (lifecycle demoHost demoTicks (Some demoSystem))) = [0, 1, 2, 3, 4] \<and>
   last (lifecycle demoHost demoTicks (Some demoSystem)) = None \<and>
   camera launchedEngine \<noteq> None \<and> \<not> isPaused launchedEngine \<and>
   systems launchedEngine = [buildSystem demoHost demoTargets 0 0 1 1] \<and>
   ticksLeft (buildSystem demoHost demoTargets 0 0 1 1) < 400 \<and>
   systems (run demoHost (replicate 400 OpFrame) launchedEngine) = []"
proof -
  have a: "\<forall>n. 0 \<le> mathRandom demoHost n" by simp
  have b: "ticksLeft (buildSystem demoHost demoTargets 0 0 1 1) < length demoTicks"
    "ticksLeft (buildSystem demoHost demoTargets 0 0 1 1) < 400"
    using demoSystem_ticksLeft demoTicks_length by (simp_all add: demoSystem_def)
  have c: "0 < vy (rocketVelocity demoSystem)"
    by (simp add: demoSystem_def buildSystem_launch(2))
  have d: "last (lifecycle demoHost demoTicks (Some demoSystem)) = None"
    using lifecycle_ends [OF c] b by (simp add: demoSystem_def)
  have l: "camera launchedEngine \<noteq> None" "\<not> isPaused launchedEngine"
    "systems launchedEngine = [buildSystem demoHost demoTargets 0 0 1 1]"
    using launchedEngine_simps by (simp_all add: demoSystem_def)
  from lifecycle_in_order [OF a, of demoTargets 0 0 1 1 demoTicks _ _ _ _ launchedEngine 400] b l
  have e: "stage (Some (buildSystem demoHost demoTargets 0 0 1 1)) = 0"
    "remdups_adj (map stage (lifecycle demoHost demoTicks
       (Some (buildSystem demoHost demoTargets 0 0 1 1)))) = [0, 1, 2, 3, 4]"
    "systems (run demoHost (replicate 400 OpFrame) launchedEngine) = []"
    by blast+
  show ?thesis
    using a b d e l unfolding demoSystem_def by blast
qed

subsection \<open>Particle count\<close>

text \<open>
  C3. Let the target shape resolved by a spawn have \<open>N > 0\<close> points. On an initialised
  service the spawn returns and appends one system to the registry, and in every state that
  system goes through, under any sequence of ticks and until it is removed, its position,
  target, velocity and color buffers have length \<open>3 * N\<close>. Before \<open>init\<close> the spawn throws
  and the registry is as before: no system is created.
\<close>

theorem particle_count_fixed:
  assumes "fst (getPointsFromTextCanvas h text scale st s) = targets" and "targets \<noteq> []"
  shows "(camera s \<noteq> None \<longrightarrow>
            (\<exists>s' sys. spawnRocketFirework h text scale tX tY st s = Inr s' \<and>
               systems s' = systems s @ [sys] \<and>
               list_all (hasCount (length targets)) (lifecycle h ks (Some sys)))) \<and>
         (camera s = None \<longrightarrow>
            (\<exists>s'. spawnRocketFirework h text scale tX tY st s = Inl (TypeError, s') \<and>
               systems s' = systems s))"
proof -
  let ?r = "getPointsFromTextCanvas h text scale st s"
  let ?sys = "buildSystem h (fst ?r) tX tY (currentPaletteIndex (snd ?r)) (rng (snd ?r))"
  have "list_all (hasCount (length targets)) (lifecycle h ks (Some ?sys))"
    using buildSystem_hasCount [of "fst ?r" h tX tY] hasCount_lifecycle assms(1) by blast
  then show ?thesis
    using assms by (auto simp: spawn_unfold Let_def)
qed

theorem particle_count_fixed_witness:
  "fst (getPointsFromTextCanvas demoHost textA 1 None readyEngine) = demoTargets \<and>
   fst (getPointsFromTextCanvas demoHost textA 1 None newEngine) = demoTargets \<and>
   demoTargets \<noteq> [] \<and> camera readyEngine \<noteq> None \<and> camera newEngine = None \<and>
   (\<exists>s'. spawnRocketFirework demoHost textA 1 0 0 None readyEngine = Inr s' \<and>
      systems s' = [demoSystem]) \<and>
   list_all (hasCount 1) (lifecycle demoHost demoTicks (Some demoSystem)) \<and>
   remdups_adj (map stage (lifecycle demoHost demoTicks (Some demoSystem))) = [0, 1, 2, 3, 4] \<and>
   (\<exists>s'. spawnRocketFirework demoHost textA 1 0 0 None newEngine = Inl (TypeError, s') \<and>
      systems s' = [])"
proof -
  have a: "fst (getPointsFromTextCanvas demoHost textA 1 None readyEngine) = demoTargets"
    by (simp add: readyEngine_request)
  have a': "fst (getPointsFromTextCanvas demoHost textA 1 None newEngine) = demoTargets"
    using firstRequest_eq by (simp add: firstRequest_def demoTargets_def)
  have b: "demoTargets \<noteq> []" by (simp add: demoTargets_def)
  have c: "camera readyEngine \<noteq> None" "camera newEngine = None" by simp_all
  note d = readyEngine_spawn
  have t: "ticksLeft (buildSystem demoHost demoTargets 0 0 1 1) < length demoTicks"
    using demoSystem_ticksLeft demoTicks_length by (simp add: demoSystem_def)
  have e: "remdups_adj (map stage (lifecycle demoHost demoTicks (Some demoSystem))) = [0, 1, 2, 3, 4]"
    unfolding demoSystem_def by (rule lifecycle_complete [OF _ t]) simp
  have len: "length demoTargets = 1" by (simp add: demoTargets_def)
  show ?thesis
    using particle_count_fixed [OF a b, of 0 0 demoTicks] particle_count_fixed [OF a' b, of 0 0 demoTicks]
      a a' b c d e len
    by auto
qed

end
